theory Spec2Isabelle
  imports
    Main
    "HOL-Library.Char_ord"
    "HOL-Library.List_Lexorder"
    "HOL-Library.Multiset"
    "HOL-Library.AList"
begin

section \<open>Python values\<close>

text \<open>
  Both scripts work on documents read by \<^verbatim>\<open>json.load\<close>.  A document is one of
  \<^verbatim>\<open>None\<close>, a \<^verbatim>\<open>bool\<close>, an \<^verbatim>\<open>int\<close>, a \<^verbatim>\<open>str\<close>, a
  \<^verbatim>\<open>list\<close> or a \<^verbatim>\<open>dict\<close> with string keys.  A dict is the list of its
  items in insertion order; \<^verbatim>\<open>json.load\<close> never yields a key twice.  A string is the
  list of its code points, here the code points below 256.  JSON numbers with a fraction
  or an exponent (Python floats) are outside this model.
\<close>

datatype json =
    JNull
  | JBool bool
  | JNum int
  | JStr string
  | JArr "json list"
  | JObj "(string \<times> json) list"

text \<open>
  An exception that a Python operation or the browser layer raises.  The message texts are
  the ones CPython 3.12 prints; no statement below depends on them.
\<close>

datatype exn =
    PlaywrightError string
  | KeyError string
  | TypeError string
  | AttributeError string
  | ValueError string

type_synonym 'a result = "exn + 'a"

definition ebind :: "'a result \<Rightarrow> ('a \<Rightarrow> 'b result) \<Rightarrow> 'b result" where
  "ebind m f = (case m of Inl e \<Rightarrow> Inl e | Inr x \<Rightarrow> f x)"

text \<open>A loop or comprehension body run over a list; the first exception ends it.\<close>

fun emap :: "('a \<Rightarrow> 'b result) \<Rightarrow> 'a list \<Rightarrow> 'b list result" where
  "emap f [] = Inr []"
| "emap f (x # xs) = ebind (f x) (\<lambda>y. ebind (emap f xs) (\<lambda>ys. Inr (y # ys)))"

subsection \<open>Strings\<close>

definition py_isspace :: "char \<Rightarrow> bool" where
  "py_isspace c \<longleftrightarrow>
     (CHR 0x09 \<le> c \<and> c \<le> CHR 0x0D) \<or> (CHR 0x1C \<le> c \<and> c \<le> CHR 0x20)
     \<or> c = CHR 0x85 \<or> c = CHR 0xA0"

definition py_strip :: "string \<Rightarrow> string" where
  "py_strip s = dropWhile py_isspace (rev (dropWhile py_isspace (rev s)))"

definition py_lower_char :: "char \<Rightarrow> char" where
  "py_lower_char c =
     (if (CHR ''A'' \<le> c \<and> c \<le> CHR ''Z'') \<or> (CHR 0xC0 \<le> c \<and> c \<le> CHR 0xDE \<and> c \<noteq> CHR 0xD7)
      then char_of (of_char c + (32::nat)) else c)"

definition py_lower :: "string \<Rightarrow> string" where
  "py_lower s = map py_lower_char s"

definition py_isdigit :: "char \<Rightarrow> bool" where
  "py_isdigit c \<longleftrightarrow>
     (CHR ''0'' \<le> c \<and> c \<le> CHR ''9'') \<or> c = CHR 0xB2 \<or> c = CHR 0xB3 \<or> c = CHR 0xB9"

fun starts_with :: "string \<Rightarrow> string \<Rightarrow> bool" where
  "starts_with [] s = True"
| "starts_with (p # ps) [] = False"
| "starts_with (p # ps) (c # cs) = (p = c \<and> starts_with ps cs)"

text \<open>\<^verbatim>\<open>sub in s\<close> for two strings.\<close>

fun py_contains :: "string \<Rightarrow> string \<Rightarrow> bool" where
  "py_contains sub [] = (sub = [])"
| "py_contains sub (c # cs) = (starts_with sub (c # cs) \<or> py_contains sub cs)"

fun py_join :: "string \<Rightarrow> string list \<Rightarrow> string" where
  "py_join sep [] = []"
| "py_join sep [x] = x"
| "py_join sep (x # y # ys) = x @ sep @ py_join sep (y # ys)"

definition digit_char :: "nat \<Rightarrow> char" where
  "digit_char d = char_of (of_char (CHR ''0'') + d)"

function nat_str :: "nat \<Rightarrow> string" where
  "nat_str n = (if n < 10 then [digit_char n] else nat_str (n div 10) @ [digit_char (n mod 10)])"
  by pat_completeness auto
termination
  by (relation "measure id") auto

definition int_str :: "int \<Rightarrow> string" where
  "int_str i = (if i < 0 then CHR ''-'' # nat_str (nat (- i)) else nat_str (nat i))"

definition hex_char :: "nat \<Rightarrow> char" where
  "hex_char d = (if d < 10 then digit_char d else char_of (of_char (CHR ''a'') + (d - 10)))"

text \<open>One character of \<^verbatim>\<open>repr\<close> of a string delimited by the quote \<open>q\<close>.\<close>

definition repr_char :: "char \<Rightarrow> char \<Rightarrow> string" where
  "repr_char q c =
     (if c = q \<or> c = CHR 0x5C then [CHR 0x5C, c]
      else if c = CHR 0x09 then [CHR 0x5C, CHR ''t'']
      else if c = CHR 0x0A then [CHR 0x5C, CHR ''n'']
      else if c = CHR 0x0D then [CHR 0x5C, CHR ''r'']
      else if c < CHR 0x20 \<or> c = CHR 0x7F \<or> (CHR 0x80 \<le> c \<and> c \<le> CHR 0xA0) \<or> c = CHR 0xAD
        then [CHR 0x5C, CHR ''x'', hex_char (of_char c div 16), hex_char (of_char c mod 16)]
      else [c])"

definition repr_str :: "string \<Rightarrow> string" where
  "repr_str s =
     (let q = (if CHR 0x27 \<in> set s \<and> CHR 0x22 \<notin> set s then CHR 0x22 else CHR 0x27)
      in q # concat (map (repr_char q) s) @ [q])"

subsection \<open>Built-in operations on values\<close>

fun type_name :: "json \<Rightarrow> string" where
  "type_name JNull = ''NoneType''"
| "type_name (JBool b) = ''bool''"
| "type_name (JNum n) = ''int''"
| "type_name (JStr s) = ''str''"
| "type_name (JArr xs) = ''list''"
| "type_name (JObj kvs) = ''dict''"

text \<open>\<^verbatim>\<open>bool(x)\<close>.\<close>

fun truthy :: "json \<Rightarrow> bool" where
  "truthy JNull = False"
| "truthy (JBool b) = b"
| "truthy (JNum n) = (n \<noteq> 0)"
| "truthy (JStr s) = (s \<noteq> [])"
| "truthy (JArr xs) = (xs \<noteq> [])"
| "truthy (JObj kvs) = (kvs \<noteq> [])"

text \<open>\<^verbatim>\<open>a or b\<close>, for an operand \<open>b\<close> that cannot raise.\<close>

definition py_or :: "json \<Rightarrow> json \<Rightarrow> json" where
  "py_or a b = (if truthy a then a else b)"

fun py_repr :: "json \<Rightarrow> string" where
  "py_repr JNull = ''None''"
| "py_repr (JBool b) = (if b then ''True'' else ''False'')"
| "py_repr (JNum n) = int_str n"
| "py_repr (JStr s) = repr_str s"
| "py_repr (JArr xs) = ''['' @ py_join '', '' (map py_repr xs) @ '']''"
| "py_repr (JObj kvs) =
     ''{'' @ py_join '', '' (map (\<lambda>kv. repr_str (fst kv) @ '': '' @ py_repr (snd kv)) kvs) @ ''}''"

text \<open>\<^verbatim>\<open>str(x)\<close>.\<close>

definition py_str :: "json \<Rightarrow> string" where
  "py_str x = (case x of JStr s \<Rightarrow> s | _ \<Rightarrow> py_repr x)"

definition quoted :: "string \<Rightarrow> string" where
  "quoted s = CHR 0x27 # s @ [CHR 0x27]"

definition no_attribute :: "json \<Rightarrow> string \<Rightarrow> exn" where
  "no_attribute x a =
     AttributeError (quoted (type_name x) @ '' object has no attribute '' @ quoted a)"

text \<open>\<^verbatim>\<open>x.get(k, d)\<close> and \<^verbatim>\<open>x.get(k)\<close>: only a dict has the method.\<close>

definition get_default :: "json \<Rightarrow> string \<Rightarrow> json \<Rightarrow> json result" where
  "get_default x k d =
     (case x of
        JObj kvs \<Rightarrow> Inr (case map_of kvs k of Some v \<Rightarrow> v | None \<Rightarrow> d)
      | _ \<Rightarrow> Inl (no_attribute x ''get''))"

definition get :: "json \<Rightarrow> string \<Rightarrow> json result" where
  "get x k = get_default x k JNull"

text \<open>\<^verbatim>\<open>x[k]\<close> for a string \<open>k\<close>.\<close>

definition subscript :: "json \<Rightarrow> string \<Rightarrow> json result" where
  "subscript x k =
     (case x of
        JObj kvs \<Rightarrow> (case map_of kvs k of Some v \<Rightarrow> Inr v | None \<Rightarrow> Inl (KeyError (repr_str k)))
      | JStr s \<Rightarrow> Inl (TypeError (''string indices must be integers, not '' @ quoted ''str''))
      | JArr xs \<Rightarrow> Inl (TypeError ''list indices must be integers or slices, not str'')
      | _ \<Rightarrow> Inl (TypeError (quoted (type_name x) @ '' object is not subscriptable'')))"

text \<open>Iteration: a list gives its elements, a string its characters, a dict its keys.\<close>

definition py_iter :: "json \<Rightarrow> json list result" where
  "py_iter x =
     (case x of
        JArr xs \<Rightarrow> Inr xs
      | JStr s \<Rightarrow> Inr (map (\<lambda>c. JStr [c]) s)
      | JObj kvs \<Rightarrow> Inr (map (\<lambda>kv. JStr (fst kv)) kvs)
      | _ \<Rightarrow> Inl (TypeError (quoted (type_name x) @ '' object is not iterable'')))"

text \<open>\<^verbatim>\<open>k in x\<close> for a string \<open>k\<close>.\<close>

definition py_in :: "string \<Rightarrow> json \<Rightarrow> bool result" where
  "py_in k x =
     (case x of
        JObj kvs \<Rightarrow> Inr (k \<in> fst ` set kvs)
      | JStr s \<Rightarrow> Inr (py_contains k s)
      | JArr xs \<Rightarrow> Inr (JStr k \<in> set xs)
      | _ \<Rightarrow> Inl (TypeError (''argument of type '' @ quoted (type_name x) @ '' is not iterable'')))"

definition py_len :: "json \<Rightarrow> nat result" where
  "py_len x =
     (case x of
        JArr xs \<Rightarrow> Inr (length xs)
      | JStr s \<Rightarrow> Inr (length s)
      | JObj kvs \<Rightarrow> Inr (length kvs)
      | _ \<Rightarrow> Inl (TypeError (''object of type '' @ quoted (type_name x) @ '' has no len()'')))"

text \<open>\<^verbatim>\<open>sep.join(x)\<close>: every element that iteration gives must be a string.\<close>

definition as_str :: "json \<Rightarrow> string result" where
  "as_str x = (case x of JStr s \<Rightarrow> Inr s
     | _ \<Rightarrow> Inl (TypeError (''sequence item: expected str instance, '' @ type_name x @ '' found'')))"

definition py_join_json :: "string \<Rightarrow> json \<Rightarrow> string result" where
  "py_join_json sep x =
     (case x of
        JArr xs \<Rightarrow> ebind (emap as_str xs) (\<lambda>ss. Inr (py_join sep ss))
      | JStr s \<Rightarrow> Inr (py_join sep (map (\<lambda>c. [c]) s))
      | JObj kvs \<Rightarrow> Inr (py_join sep (map fst kvs))
      | _ \<Rightarrow> Inl (TypeError ''can only join an iterable''))"

text \<open>
  Dictionary keys.  Only \<^verbatim>\<open>None\<close>, booleans, integers and strings can be hashed;
  \<^verbatim>\<open>True == 1\<close> and \<^verbatim>\<open>False == 0\<close> with equal hashes, so they are the same key.
\<close>

fun hashable :: "json \<Rightarrow> bool" where
  "hashable (JArr xs) = False"
| "hashable (JObj kvs) = False"
| "hashable x = True"

definition unhashable :: "json \<Rightarrow> exn" where
  "unhashable x = TypeError (''unhashable type: '' @ quoted (type_name x))"

definition key_norm :: "json \<Rightarrow> json" where
  "key_norm k = (case k of JBool b \<Rightarrow> JNum (if b then 1 else 0) | _ \<Rightarrow> k)"

definition py_eq :: "json \<Rightarrow> json \<Rightarrow> bool" where
  "py_eq a b \<longleftrightarrow> key_norm a = key_norm b"

text \<open>
  \<^verbatim>\<open>d[k] = v\<close> on a dict with arbitrary hashable keys: an existing key keeps its place
  (and its own key object) and takes the new value, a new key goes to the end.
\<close>

fun pydict_set :: "(json \<times> 'v) list \<Rightarrow> json \<Rightarrow> 'v \<Rightarrow> (json \<times> 'v) list" where
  "pydict_set [] k v = [(k, v)]"
| "pydict_set ((k', v') # d) k v =
     (if py_eq k' k then (k', v) # d else (k', v') # pydict_set d k v)"

fun pydict_get :: "(json \<times> 'v) list \<Rightarrow> json \<Rightarrow> 'v option" where
  "pydict_get [] k = None"
| "pydict_get ((k', v') # d) k = (if py_eq k' k then Some v' else pydict_get d k)"

text \<open>\<^verbatim>\<open>set(a) - set(b)\<close> on keys, in the order of \<open>a\<close>.\<close>

definition keys_minus :: "json list \<Rightarrow> json list \<Rightarrow> json list" where
  "keys_minus a b = filter (\<lambda>k. \<not> list_ex (py_eq k) b) a"

definition is_str :: "json \<Rightarrow> bool" where
  "is_str x = (case x of JStr s \<Rightarrow> True | _ \<Rightarrow> False)"

definition is_num :: "json \<Rightarrow> bool" where
  "is_num x = (case x of JBool b \<Rightarrow> True | JNum n \<Rightarrow> True | _ \<Rightarrow> False)"

definition is_dict :: "json \<Rightarrow> bool" where
  "is_dict x = (case x of JObj kvs \<Rightarrow> True | _ \<Rightarrow> False)"

definition str_val :: "json \<Rightarrow> string" where
  "str_val x = (case x of JStr s \<Rightarrow> s | _ \<Rightarrow> [])"

definition num_val :: "json \<Rightarrow> int" where
  "num_val x = (case x of JBool b \<Rightarrow> (if b then 1 else 0) | JNum n \<Rightarrow> n | _ \<Rightarrow> 0)"

text \<open>
  \<^verbatim>\<open>sorted(s)\<close> for a set of keys.  Strings compare with strings and numbers with
  numbers; sorting two or more keys of which two cannot be compared raises
  \<^verbatim>\<open>TypeError\<close> (which pair the message names depends on the order of the set).
\<close>

definition py_sorted :: "json list \<Rightarrow> json list result" where
  "py_sorted ks =
     (if length ks \<le> 1 then Inr ks
      else if list_all is_str ks then Inr (sort_key str_val ks)
      else if list_all is_num ks then Inr (sort_key num_val ks)
      else Inl (TypeError (quoted ''<'' @ '' not supported between instances'')))"

text \<open>A dict with string keys, kept as its list of items: \<^verbatim>\<open>d[k]\<close>.\<close>

definition dict_item :: "(string \<times> 'v) list \<Rightarrow> string \<Rightarrow> 'v result" where
  "dict_item d k = (case map_of d k of Some v \<Rightarrow> Inr v | None \<Rightarrow> Inl (KeyError (repr_str k)))"

text \<open>\<^verbatim>\<open>sorted(set(a) - set(b))\<close> and \<^verbatim>\<open>sorted(set(a) & set(b))\<close> on strings.\<close>

definition sorted_minus :: "string list \<Rightarrow> string list \<Rightarrow> string list" where
  "sorted_minus a b = sort (remdups (filter (\<lambda>k. k \<notin> set b) a))"

definition sorted_inter :: "string list \<Rightarrow> string list \<Rightarrow> string list" where
  "sorted_inter a b = sort (remdups (filter (\<lambda>k. k \<in> set b) a))"

text \<open>
  The dicts that the scripts fill with string keys; \<open>AList.update\<close> is
  \<^verbatim>\<open>d[k] = v\<close>: a later item with the same key replaces the value in place.
\<close>

definition dict_of :: "(string \<times> 'v) list \<Rightarrow> (string \<times> 'v) list" where
  "dict_of kvs = fold (\<lambda>kv d. AList.update (fst kv) (snd kv) d) kvs []"

section \<open>The schema drift detector (\<^verbatim>\<open>scripts/stability_check.py\<close>)\<close>

definition schema_settings :: "json \<Rightarrow> json list result" where
  "schema_settings schema =
     ebind (get schema ''fieldRecords'') (\<lambda>records.
       if truthy records then py_iter records
       else ebind (get schema ''settings'') (\<lambda>settings. py_iter (py_or settings (JArr []))))"

definition setting_label :: "json \<Rightarrow> string result" where
  "setting_label setting =
     ebind (py_in ''label'' setting) (\<lambda>has_label.
       if has_label then ebind (get setting ''label'') (\<lambda>l. Inr (py_str (py_or l (JStr ''''))))
       else
         ebind (get setting ''control'') (\<lambda>c.
         ebind (get (py_or c (JObj [])) ''primary_selector'') (\<lambda>p.
         ebind (get (py_or p (JObj [])) ''name'') (\<lambda>n.
           Inr (py_str (py_or n (JStr '''')))))))"

definition setting_type :: "json \<Rightarrow> string result" where
  "setting_type setting = ebind (get setting ''type'') (\<lambda>t. Inr (py_str (py_or t (JStr ''''))))"

definition setting_id :: "json \<Rightarrow> string result" where
  "setting_id setting =
     ebind (get setting ''field_id'') (\<lambda>f.
       if truthy f then Inr (py_str f)
       else ebind (get setting ''settingKey'') (\<lambda>k. Inr (py_str (py_or k (JStr '''')))))"

text \<open>\<^verbatim>\<open>str(d.get(k) or "")\<close>.\<close>

definition get_str :: "json \<Rightarrow> string \<Rightarrow> string result" where
  "get_str d k = ebind (get d k) (\<lambda>v. Inr (py_str (py_or v (JStr ''''))))"

definition setting_signature :: "json \<Rightarrow> string result" where
  "setting_signature setting =
     ebind (py_in ''field_id'' setting) (\<lambda>has_field_id.
       if has_field_id then
         ebind (get setting ''control'') (\<lambda>c.
         ebind (get setting ''group'') (\<lambda>g.
         ebind (get setting ''container'') (\<lambda>cn.
         ebind (get setting ''context'') (\<lambda>cx.
         let control = py_or c (JObj []); group = py_or g (JObj []);
             container = py_or cn (JObj []); context = py_or cx (JObj [])
         in
           ebind (get_str setting ''page'') (\<lambda>s1.
           ebind (get setting ''breadcrumb'') (\<lambda>b.
           ebind (py_join_json ''|'' (py_or b (JArr []))) (\<lambda>s2.
           ebind (get_str container ''title'') (\<lambda>s3.
           ebind (get_str group ''title'') (\<lambda>s4.
           ebind (get_str control ''canonical_control_id'') (\<lambda>s5.
           ebind (get_str context ''frame_url'') (\<lambda>s6.
           ebind (get_str context ''modal_title'') (\<lambda>s7.
           ebind (setting_type setting) (\<lambda>s8.
             Inr (py_join ''|'' [s1, s2, s3, s4, s5, s6, s7, s8]))))))))))))))
       else
         ebind (get_str setting ''containerKey'') (\<lambda>s1.
         ebind (get_str setting ''groupTitle'') (\<lambda>s2.
         ebind (setting_label setting) (\<lambda>s3.
         ebind (setting_type setting) (\<lambda>s4.
           Inr (py_join ''|'' [s1, s2, s3, s4]))))))"

definition is_timestamp_field :: "json \<Rightarrow> bool result" where
  "is_timestamp_field setting =
     ebind (setting_label setting) (\<lambda>l.
       let label = py_lower l in
       if py_contains ''time'' label \<or> py_contains ''date'' label then Inr True
       else
         ebind (py_in ''value'' setting) (\<lambda>has_value.
         ebind (if has_value then ebind (get setting ''value'') (\<lambda>v. Inr (is_dict v))
                else Inr False) (\<lambda>nested.
         ebind (if nested
                then ebind (subscript setting ''value'') (\<lambda>v. get_str v ''current_value'')
                else get_str setting ''currentValue'') (\<lambda>val.
           Inr (val \<noteq> [] \<and> list_ex (\<lambda>ch. ch \<in> set val) ''/:'' \<and> list_ex py_isdigit val)))))"

definition dropdown_missing_entry :: "json \<Rightarrow> json list result" where
  "dropdown_missing_entry item =
     ebind (setting_type item) (\<lambda>item_type.
       if item_type \<notin> {''dropdown_native'', ''dropdown_aria''} then Inr []
       else
         ebind (get item ''options'') (\<lambda>opts.
         ebind (py_len (py_or opts (JArr []))) (\<lambda>n.
           if n = 0 then
             ebind (setting_id item) (\<lambda>i.
             ebind (setting_label item) (\<lambda>l.
               Inr [JObj [(''fieldId'', JStr i), (''label'', JStr l),
                          (''reason'', JStr ''dropdown has empty options[]'')]]))
           else Inr [])))"

definition dropdown_missing_options :: "json list \<Rightarrow> json list result" where
  "dropdown_missing_options settings =
     ebind (emap dropdown_missing_entry settings) (\<lambda>es. Inr (concat es))"

definition option_label :: "json \<Rightarrow> string result" where
  "option_label opt =
     ebind (get opt ''label'') (\<lambda>l.
       if truthy l then Inr (py_str l)
       else ebind (get opt ''value'') (\<lambda>v. Inr (py_str (py_or v (JStr '''')))))"

definition radio_entry :: "json \<Rightarrow> (string \<times> string list) list result" where
  "radio_entry item =
     ebind (setting_type item) (\<lambda>t.
       if t \<noteq> ''radio_group'' then Inr []
       else
         ebind (get item ''options'') (\<lambda>opts.
         ebind (py_iter (py_or opts (JArr []))) (\<lambda>os.
         ebind (emap option_label os) (\<lambda>labels.
         ebind (setting_signature item) (\<lambda>sg. Inr [(sg, labels)])))))"

definition radio_order_index :: "json list \<Rightarrow> (string \<times> string list) list result" where
  "radio_order_index settings =
     ebind (emap radio_entry settings) (\<lambda>es. Inr (dict_of (concat es)))"

definition container_item :: "json \<Rightarrow> (json \<times> json) result" where
  "container_item item =
     ebind (subscript item ''containerKey'') (\<lambda>k.
       if hashable k then Inr (k, item) else Inl (unhashable k))"

definition containers_by_key :: "json \<Rightarrow> (json \<times> json) list result" where
  "containers_by_key schema =
     ebind (get_default schema ''containers'' (JArr [])) (\<lambda>cs.
     ebind (py_iter cs) (\<lambda>items.
     ebind (emap container_item items) (\<lambda>kvs.
       Inr (fold (\<lambda>kv d. pydict_set d (fst kv) (snd kv)) kvs []))))"

definition id_item :: "json \<Rightarrow> (string \<times> json) list result" where
  "id_item item = ebind (setting_id item) (\<lambda>i. Inr (if i \<noteq> [] then [(i, item)] else []))"

definition settings_by_id :: "json list \<Rightarrow> (string \<times> json) list result" where
  "settings_by_id settings_list =
     ebind (emap id_item settings_list) (\<lambda>es. Inr (dict_of (concat es)))"

definition signature_item :: "json \<Rightarrow> (string \<times> string) list result" where
  "signature_item item =
     ebind (setting_id item) (\<lambda>i.
       if i = [] then Inr []
       else
         ebind (is_timestamp_field item) (\<lambda>ts.
           if ts then Inr []
           else ebind (setting_signature item) (\<lambda>sg. Inr [(sg, i)])))"

definition signature_map :: "json list \<Rightarrow> (string \<times> string) list result" where
  "signature_map settings_list =
     ebind (emap signature_item settings_list) (\<lambda>es. Inr (dict_of (concat es)))"

definition label_or_type_entry ::
  "(string \<times> json) list \<Rightarrow> (string \<times> json) list \<Rightarrow> string \<Rightarrow> json list result" where
  "label_or_type_entry first_settings second_settings key =
     ebind (dict_item first_settings key) (\<lambda>first_item.
     ebind (dict_item second_settings key) (\<lambda>second_item.
     ebind (setting_label first_item) (\<lambda>first_label.
     ebind (setting_label second_item) (\<lambda>second_label.
     ebind (setting_type first_item) (\<lambda>first_type.
     ebind (setting_type second_item) (\<lambda>second_type.
       Inr (if first_label \<noteq> second_label \<or> first_type \<noteq> second_type
            then [JObj [(''settingKey'', JStr key),
                        (''first'', JObj [(''label'', JStr first_label), (''type'', JStr first_type)]),
                        (''second'', JObj [(''label'', JStr second_label), (''type'', JStr second_type)])]]
            else [])))))))"

definition drift_entry ::
  "(string \<times> string) list \<Rightarrow> (string \<times> string) list \<Rightarrow> string \<Rightarrow> json list result" where
  "drift_entry first_signature_map second_signature_map signature =
     ebind (dict_item first_signature_map signature) (\<lambda>first_id.
     ebind (dict_item second_signature_map signature) (\<lambda>second_id.
       Inr (if first_id \<noteq> second_id
            then [JObj [(''signature'', JStr signature), (''firstFieldId'', JStr first_id),
                        (''secondFieldId'', JStr second_id)]]
            else [])))"

definition radio_change_entry ::
  "(string \<times> string list) list \<Rightarrow> (string \<times> string list) list \<Rightarrow> string \<Rightarrow> json list result" where
  "radio_change_entry first_radio second_radio signature =
     ebind (dict_item first_radio signature) (\<lambda>first_labels.
     ebind (dict_item second_radio signature) (\<lambda>second_labels.
       Inr (if first_labels = second_labels then []
            else if sort first_labels = sort second_labels
            then [JObj [(''signature'', JStr signature),
                        (''firstOrder'', JArr (map JStr first_labels)),
                        (''secondOrder'', JArr (map JStr second_labels))]]
            else [])))"

record diff =
  containers_added :: "json list"
  containers_removed :: "json list"
  settings_added :: "string list"
  settings_removed :: "string list"
  labelOrTypeChanged :: "json list"
  fieldIdDrift :: "json list"
  dropdownsMissingOptionsA :: "json list"
  dropdownsMissingOptionsB :: "json list"
  radioOrderingChangedWithoutLabelChange :: "json list"

definition compare_schemas :: "json \<Rightarrow> json \<Rightarrow> diff result" where
  "compare_schemas first second =
     ebind (containers_by_key first) (\<lambda>first_containers.
     ebind (containers_by_key second) (\<lambda>second_containers.
     ebind (schema_settings first) (\<lambda>first_settings_list.
     ebind (schema_settings second) (\<lambda>second_settings_list.
     ebind (settings_by_id first_settings_list) (\<lambda>first_settings.
     ebind (settings_by_id second_settings_list) (\<lambda>second_settings.
     ebind (py_sorted (keys_minus (map fst second_containers) (map fst first_containers)))
       (\<lambda>container_added.
     ebind (py_sorted (keys_minus (map fst first_containers) (map fst second_containers)))
       (\<lambda>container_removed.
     ebind (emap (label_or_type_entry first_settings second_settings)
              (sorted_inter (map fst first_settings) (map fst second_settings)))
       (\<lambda>changed_labels_or_types.
     ebind (signature_map first_settings_list) (\<lambda>first_signature_map.
     ebind (signature_map second_settings_list) (\<lambda>second_signature_map.
     ebind (emap (drift_entry first_signature_map second_signature_map)
              (sorted_inter (map fst first_signature_map) (map fst second_signature_map)))
       (\<lambda>field_id_drift.
     ebind (radio_order_index first_settings_list) (\<lambda>first_radio.
     ebind (radio_order_index second_settings_list) (\<lambda>second_radio.
     ebind (emap (radio_change_entry first_radio second_radio)
              (sorted_inter (map fst first_radio) (map fst second_radio)))
       (\<lambda>radio_ordering_changed.
     ebind (dropdown_missing_options first_settings_list) (\<lambda>missing_a.
     ebind (dropdown_missing_options second_settings_list) (\<lambda>missing_b.
       Inr \<lparr> containers_added = container_added,
             containers_removed = container_removed,
             settings_added = sorted_minus (map fst second_settings) (map fst first_settings),
             settings_removed = sorted_minus (map fst first_settings) (map fst second_settings),
             labelOrTypeChanged = concat changed_labels_or_types,
             fieldIdDrift = concat field_id_drift,
             dropdownsMissingOptionsA = missing_a,
             dropdownsMissingOptionsB = missing_b,
             radioOrderingChangedWithoutLabelChange = concat radio_ordering_changed \<rparr>
     )))))))))))))))))"

definition has_drift :: "diff \<Rightarrow> bool" where
  "has_drift d \<longleftrightarrow>
     containers_added d \<noteq> [] \<or> containers_removed d \<noteq> []
     \<or> settings_added d \<noteq> [] \<or> settings_removed d \<noteq> []
     \<or> labelOrTypeChanged d \<noteq> [] \<or> fieldIdDrift d \<noteq> []
     \<or> dropdownsMissingOptionsA d \<noteq> [] \<or> dropdownsMissingOptionsB d \<noteq> []
     \<or> radioOrderingChangedWithoutLabelChange d \<noteq> []"

section \<open>The setting application engine (\<^verbatim>\<open>scripts/apply_settings.py\<close>)\<close>

subsection \<open>The browser\<close>

text \<open>
  The browser automation layer is an external collaborator.  A locator is the lazy
  description that Playwright builds (\<^verbatim>\<open>root.locator(css)\<close>, \<^verbatim>\<open>root.get_by_label\<close>,
  \<^verbatim>\<open>root.get_by_role\<close>, \<^verbatim>\<open>.first\<close>); building one touches nothing.  The
  last field of \<open>ByRole\<close> tells whether \<^verbatim>\<open>exact=True\<close> was passed.
\<close>

datatype locator =
    Page
  | Css locator json
  | ByLabel locator json
  | ByRole locator json json bool
  | First locator

text \<open>The calls that act on the page.  The timeout that each call takes is left out.\<close>

datatype action =
    Goto json
  | Click locator
  | Fill locator string
  | Check locator
  | Uncheck locator
  | SelectValue locator string
  | SelectLabel locator string
  | Press string
  | WaitVisible locator

text \<open>
  The live page is a state \<open>'w\<close> that the engine cannot inspect.  The four reading calls
  observe it and may raise; an acting call changes it and may raise all the same.
\<close>

record 'w browser =
  loc_count :: "'w \<Rightarrow> locator \<Rightarrow> nat result"
  loc_input_value :: "'w \<Rightarrow> locator \<Rightarrow> string result"
  loc_is_checked :: "'w \<Rightarrow> locator \<Rightarrow> bool result"
  loc_inner_text :: "'w \<Rightarrow> locator \<Rightarrow> string result"
  perform :: "action \<Rightarrow> 'w \<Rightarrow> exn option \<times> 'w"

text \<open>A browser session: the page and the acting calls made so far, oldest first.\<close>

record 'w session =
  world :: 'w
  trace :: "action list"

definition act :: "'w browser \<Rightarrow> action \<Rightarrow> 'w session \<Rightarrow> exn option \<times> 'w session" where
  "act B a s =
     (case perform B a (world s) of
        (e, w') \<Rightarrow> (e, \<lparr> world = w', trace = trace s @ [a] \<rparr>))"

subsection \<open>Loading and normalization\<close>

definition load_values :: "json \<Rightarrow> json result" where
  "load_values raw =
     ebind (py_in ''values'' raw) (\<lambda>has_values.
     ebind (if has_values then ebind (subscript raw ''values'') (\<lambda>v. Inr (is_dict v))
            else Inr False) (\<lambda>nested.
       if nested then subscript raw ''values''
       else if is_dict raw then Inr raw
       else Inl (ValueError ''Unsupported values payload'')))"

definition selector_to_locator :: "locator \<Rightarrow> json \<Rightarrow> locator result" where
  "selector_to_locator root selector =
     ebind (get selector ''kind'') (\<lambda>kind.
       if kind = JStr ''css'' then
         ebind (subscript selector ''value'') (\<lambda>v. Inr (Css root v))
       else if kind = JStr ''label'' then
         ebind (subscript selector ''text'') (\<lambda>t. Inr (ByLabel root t))
       else if kind = JStr ''role'' then
         ebind (subscript selector ''role'') (\<lambda>r.
         ebind (subscript selector ''name'') (\<lambda>n. Inr (ByRole root r n True)))
       else Inl (ValueError (''Unsupported selector kind: '' @ py_str kind)))"

definition normalize_bool :: "json \<Rightarrow> bool" where
  "normalize_bool v =
     (case v of
        JBool b \<Rightarrow> b
      | JStr s \<Rightarrow>
          (let lowered = py_lower (py_strip s) in
           if lowered \<in> {''true'', ''1'', ''yes'', ''on''} then True
           else if lowered \<in> {''false'', ''0'', ''no'', ''off''} then False
           else truthy v)
      | _ \<Rightarrow> truthy v)"

definition normalize_str :: "json \<Rightarrow> string" where
  "normalize_str v = (if v = JNull then [] else py_strip (py_str v))"

subsection \<open>Locator resolution\<close>

text \<open>
  The candidate list of \<^verbatim>\<open>resolve_field_locator\<close>: the \<^verbatim>\<open>selectors\<close> block, or the
  one synthesized from \<^verbatim>\<open>control\<close>, read as primary followed by the fallbacks.
\<close>

definition selector_candidates :: "json \<Rightarrow> json list result" where
  "selector_candidates setting =
     ebind (get_default setting ''selectors'' (JObj [])) (\<lambda>given.
     ebind (if truthy given then Inr given
            else
              ebind (get setting ''control'') (\<lambda>c.
                if \<not> truthy c then Inr given
                else
                  ebind (subscript setting ''control'') (\<lambda>control.
                  ebind (get_default control ''primary_selector'' (JObj [])) (\<lambda>primary.
                  ebind (get_default control ''fallback_selectors'' (JArr [])) (\<lambda>fallback.
                  ebind (get primary ''role'') (\<lambda>role.
                  ebind (get primary ''name'') (\<lambda>name.
                    Inr (JObj [(''primary'',
                                 if truthy role \<and> truthy name
                                 then JObj [(''kind'', JStr ''role''), (''role'', role), (''name'', name)]
                                 else JNull),
                               (''fallbacks'', fallback)])))))))) (\<lambda>selector_block.
     ebind (get selector_block ''primary'') (\<lambda>primary.
     ebind (get_default selector_block ''fallbacks'' (JArr [])) (\<lambda>fallbacks.
       case fallbacks of
         JArr fs \<Rightarrow> Inr (primary # fs)
       | _ \<Rightarrow> Inl (TypeError (''can only concatenate list (not '' @ type_name fallbacks @ '') to list''))))))"

definition summary :: "nat \<Rightarrow> string" where
  "summary index = (if index = 0 then ''primary'' else ''fallback['' @ nat_str (index - 1) @ '']'')"

text \<open>One pass of the body of the loop over the candidates: the locator, when it is unique.\<close>

definition unique_locator :: "'w browser \<Rightarrow> 'w \<Rightarrow> locator \<Rightarrow> json \<Rightarrow> locator option" where
  "unique_locator B w scope selector =
     (case selector_to_locator scope selector of
        Inl e \<Rightarrow> None
      | Inr locator \<Rightarrow>
          (case loc_count B w locator of
             Inl e \<Rightarrow> None
           | Inr n \<Rightarrow> if n = 1 then Some (First locator) else None))"

fun resolve_candidates ::
  "'w browser \<Rightarrow> 'w \<Rightarrow> locator \<Rightarrow> nat \<Rightarrow> json list \<Rightarrow> locator option \<times> string" where
  "resolve_candidates B w scope index [] = (None, ''none'')"
| "resolve_candidates B w scope index (selector # rest) =
     (if \<not> truthy selector then resolve_candidates B w scope (index + 1) rest
      else
        (case unique_locator B w scope selector of
           Some found \<Rightarrow> (Some found, summary index)
         | None \<Rightarrow> resolve_candidates B w scope (index + 1) rest))"

definition resolve_field_locator ::
  "'w browser \<Rightarrow> 'w \<Rightarrow> locator \<Rightarrow> json \<Rightarrow> (locator option \<times> string) result" where
  "resolve_field_locator B w scope setting =
     ebind (selector_candidates setting) (\<lambda>candidates.
       Inr (resolve_candidates B w scope 0 candidates))"

subsection \<open>Writing and verifying one setting\<close>

fun option_scan :: "string \<Rightarrow> json list \<Rightarrow> string result" where
  "option_scan desired_text [] = Inr desired_text"
| "option_scan desired_text (opt # rest) =
     ebind (get opt ''value'') (\<lambda>v.
     ebind (get opt ''label'') (\<lambda>l.
       if normalize_str v = desired_text
         then Inr (if normalize_str l \<noteq> [] then normalize_str l else desired_text)
       else if normalize_str l = desired_text then Inr (normalize_str l)
       else option_scan desired_text rest))"

definition resolve_option_label :: "json \<Rightarrow> json \<Rightarrow> string result" where
  "resolve_option_label setting desired =
     ebind (get_default setting ''options'' (JArr [])) (\<lambda>opts.
     ebind (py_iter opts) (\<lambda>os. option_scan (normalize_str desired) os))"

text \<open>
  \<^verbatim>\<open>verify_locator_value\<close>: the first two statements stand before its \<^verbatim>\<open>try\<close>; every
  exception inside the \<^verbatim>\<open>try\<close> makes the answer \<^verbatim>\<open>False\<close>.
\<close>

definition caught :: "bool result \<Rightarrow> bool" where
  "caught r = (case r of Inl e \<Rightarrow> False | Inr b \<Rightarrow> b)"

definition verify_locator_value ::
  "'w browser \<Rightarrow> 'w \<Rightarrow> locator \<Rightarrow> json \<Rightarrow> json \<Rightarrow> bool result" where
  "verify_locator_value B w locator setting desired =
     ebind (get setting ''type'') (\<lambda>control_type.
       let desired_text = normalize_str desired in
       Inr (caught (
         if \<not> hashable control_type then Inl (unhashable control_type)
         else if control_type \<in> {JStr ''checkbox'', JStr ''switch''} then
           ebind (loc_is_checked B w locator) (\<lambda>c. Inr (c = normalize_bool desired))
         else if control_type = JStr ''radio_group'' then Inr True
         else if control_type = JStr ''dropdown_native'' then
           ebind (loc_input_value B w locator) (\<lambda>current.
             Inr (normalize_str (JStr current) = desired_text
                  \<or> py_contains desired_text (normalize_str (JStr current))))
         else if control_type = JStr ''dropdown_aria'' then
           ebind (loc_inner_text B w locator) (\<lambda>t.
           ebind (resolve_option_label setting desired) (\<lambda>opt_label.
             Inr (py_contains opt_label (normalize_str (JStr t))
                  \<or> py_contains desired_text (normalize_str (JStr t)))))
         else if control_type \<in> {JStr ''textbox'', JStr ''spinbutton''} then
           ebind (loc_input_value B w locator) (\<lambda>current.
             Inr (normalize_str (JStr current) = desired_text))
         else Inr True)))"

text \<open>
  How the type dispatch inside the \<^verbatim>\<open>try\<close> of \<^verbatim>\<open>apply_setting\<close> ends: an exception
  (with the value of \<^verbatim>\<open>changed\<close> at that moment), a \<^verbatim>\<open>return\<close>, or falling through
  to the verification with \<^verbatim>\<open>changed\<close>.
\<close>

datatype flow = Raised bool exn | Returned "bool \<times> bool \<times> string" | Written bool

definition write_text ::
  "'w browser \<Rightarrow> 'w session \<Rightarrow> locator \<Rightarrow> json \<Rightarrow> flow \<times> 'w session" where
  "write_text B s locator desired =
     (case loc_input_value B (world s) locator of
        Inl e \<Rightarrow> (Raised False e, s)
      | Inr cur \<Rightarrow>
          (let current = normalize_str (JStr cur); target = normalize_str desired in
           if current \<noteq> target then
             (case act B (Fill locator target) s of
                (Some e, s') \<Rightarrow> (Raised False e, s')
              | (None, s') \<Rightarrow> (Written True, s'))
           else (Written False, s)))"

definition write_check ::
  "'w browser \<Rightarrow> 'w session \<Rightarrow> locator \<Rightarrow> json \<Rightarrow> flow \<times> 'w session" where
  "write_check B s locator desired =
     (let desired_bool = normalize_bool desired in
      case loc_is_checked B (world s) locator of
        Inl e \<Rightarrow> (Raised False e, s)
      | Inr current \<Rightarrow>
          if current \<noteq> desired_bool then
            (case act B (if desired_bool then Check locator else Uncheck locator) s of
               (Some e, s') \<Rightarrow> (Raised False e, s')
             | (None, s') \<Rightarrow> (Written True, s'))
          else (Written False, s))"

definition write_radio ::
  "'w browser \<Rightarrow> 'w session \<Rightarrow> locator \<Rightarrow> json \<Rightarrow> json \<Rightarrow> flow \<times> 'w session" where
  "write_radio B s scope setting desired =
     (case resolve_option_label setting desired of
        Inl e \<Rightarrow> (Raised False e, s)
      | Inr label \<Rightarrow>
          (let radio = First (ByRole scope (JStr ''radio'') (JStr label) True) in
           case loc_count B (world s) radio of
             Inl e \<Rightarrow> (Raised False e, s)
           | Inr n \<Rightarrow>
               if n = 0 then (Returned (False, False, ''radio-option-not-found:'' @ label), s)
               else
                 (case loc_is_checked B (world s) radio of
                    Inl e \<Rightarrow> (Raised False e, s)
                  | Inr checked \<Rightarrow>
                      if \<not> checked then
                        (case act B (Click radio) s of
                           (Some e, s') \<Rightarrow> (Raised False e, s')
                         | (None, s') \<Rightarrow> (Written True, s'))
                      else (Written False, s))))"

definition write_native ::
  "'w browser \<Rightarrow> 'w session \<Rightarrow> locator \<Rightarrow> json \<Rightarrow> json \<Rightarrow> flow \<times> 'w session" where
  "write_native B s locator setting desired =
     (let desired_value = normalize_str desired in
      case loc_input_value B (world s) locator of
        Inl e \<Rightarrow> (Raised False e, s)
      | Inr cur \<Rightarrow>
          if normalize_str (JStr cur) \<noteq> desired_value then
            (case act B (SelectValue locator desired_value) s of
               (None, s') \<Rightarrow> (Written True, s')
             | (Some e, s') \<Rightarrow>
                 (case resolve_option_label setting desired of
                    Inl e' \<Rightarrow> (Raised False e', s')
                  | Inr label \<Rightarrow>
                      (case act B (SelectLabel locator label) s' of
                         (Some e', s'') \<Rightarrow> (Raised False e', s'')
                       | (None, s'') \<Rightarrow> (Written True, s''))))
          else (Written False, s))"

definition write_aria ::
  "'w browser \<Rightarrow> 'w session \<Rightarrow> locator \<Rightarrow> json \<Rightarrow> json \<Rightarrow> flow \<times> 'w session" where
  "write_aria B s locator setting desired =
     (case resolve_option_label setting desired of
        Inl e \<Rightarrow> (Raised False e, s)
      | Inr opt_label \<Rightarrow>
          (case act B (Click locator) s of
             (Some e, s1) \<Rightarrow> (Raised False e, s1)
           | (None, s1) \<Rightarrow>
               (let opt = First (ByRole Page (JStr ''option'') (JStr opt_label) True) in
                case loc_count B (world s1) opt of
                  Inl e \<Rightarrow> (Raised False e, s1)
                | Inr n \<Rightarrow>
                    if n = 0 then
                      (case act B (Press ''Escape'') s1 of
                         (Some e, s2) \<Rightarrow> (Raised False e, s2)
                       | (None, s2) \<Rightarrow>
                           (Returned (False, False, ''aria-option-not-found:'' @ opt_label), s2))
                    else
                      (case act B (Click opt) s1 of
                         (Some e, s2) \<Rightarrow> (Raised False e, s2)
                       | (None, s2) \<Rightarrow> (Written True, s2)))))"

definition write_phase ::
  "'w browser \<Rightarrow> 'w session \<Rightarrow> locator \<Rightarrow> locator \<Rightarrow> json \<Rightarrow> json \<Rightarrow> json \<Rightarrow> flow \<times> 'w session" where
  "write_phase B s scope locator setting ty desired =
     (if \<not> hashable ty then (Raised False (unhashable ty), s)
      else if ty \<in> {JStr ''textbox'', JStr ''spinbutton''} then write_text B s locator desired
      else if ty \<in> {JStr ''checkbox'', JStr ''switch''} then write_check B s locator desired
      else if ty = JStr ''radio_group'' then write_radio B s scope setting desired
      else if ty = JStr ''dropdown_native'' then write_native B s locator setting desired
      else if ty = JStr ''dropdown_aria'' then write_aria B s locator setting desired
      else if ty \<in> {JStr ''button_dialog'', JStr ''text_display'', JStr ''table''}
        then (Returned (True, False, ''not-writable''), s)
      else (Returned (False, False, ''unsupported-type:'' @ py_str ty), s))"

text \<open>The two \<^verbatim>\<open>except\<close> clauses of \<^verbatim>\<open>apply_setting\<close>.\<close>

definition except_note :: "exn \<Rightarrow> string" where
  "except_note e =
     (case e of
        PlaywrightError m \<Rightarrow> ''playwright-error:'' @ m
      | KeyError m \<Rightarrow> m
      | TypeError m \<Rightarrow> m
      | AttributeError m \<Rightarrow> m
      | ValueError m \<Rightarrow> m)"

definition apply_setting ::
  "'w browser \<Rightarrow> 'w session \<Rightarrow> locator \<Rightarrow> json \<Rightarrow> json
     \<Rightarrow> ((bool \<times> bool \<times> string) \<times> 'w session) result" where
  "apply_setting B s scope setting desired =
     ebind (resolve_field_locator B (world s) scope setting) (\<lambda>resolved.
       case fst resolved of
         None \<Rightarrow> Inr ((False, False, ''no-unique-selector''), s)
       | Some locator \<Rightarrow>
           ebind (get setting ''type'') (\<lambda>ty.
             case write_phase B s scope locator setting ty desired of
               (Raised changed e, s') \<Rightarrow> Inr ((False, changed, except_note e), s')
             | (Returned r, s') \<Rightarrow> Inr (r, s')
             | (Written changed, s') \<Rightarrow>
                 (case verify_locator_value B (world s') locator setting desired of
                    Inl e \<Rightarrow> Inr ((False, changed, except_note e), s')
                  | Inr v \<Rightarrow>
                      (let verified = (v \<or> ty \<in> {JStr ''radio_group'', JStr ''dropdown_aria''}) in
                       if \<not> verified then Inr ((False, changed, ''verification-failed''), s')
                       else Inr ((True, changed, snd resolved), s')))))"

subsection \<open>Opening, saving and closing a container\<close>

text \<open>The first loop of \<^verbatim>\<open>open_container\<close>: the URL of the first usable \<^verbatim>\<open>goto\<close> step.\<close>

fun find_goto :: "json list \<Rightarrow> json result" where
  "find_goto [] = Inr JNull"
| "find_goto (step # rest) =
     ebind (get step ''action'') (\<lambda>a.
       if a = JStr ''goto'' then
         ebind (get step ''url'') (\<lambda>u. if truthy u then subscript step ''url'' else find_goto rest)
       else find_goto rest)"

definition try_click :: "'w browser \<Rightarrow> 'w session \<Rightarrow> json \<Rightarrow> 'w session" where
  "try_click B s selector =
     (case selector_to_locator Page selector of
        Inl e \<Rightarrow> s
      | Inr target \<Rightarrow>
          (case loc_count B (world s) target of
             Inl e \<Rightarrow> s
           | Inr n \<Rightarrow> if n = 0 then s else snd (act B (Click (First target)) s)))"

fun nav_clicks :: "'w browser \<Rightarrow> 'w session \<Rightarrow> json list \<Rightarrow> 'w session result" where
  "nav_clicks B s [] = Inr s"
| "nav_clicks B s (step # rest) =
     ebind (get step ''action'') (\<lambda>a.
       if a \<noteq> JStr ''click'' then nav_clicks B s rest
       else
         ebind (get step ''kind'') (\<lambda>k.
           if k = JStr ''modal_close'' then nav_clicks B s rest
           else
             ebind (get step ''selector'') (\<lambda>selector.
               if \<not> truthy selector then nav_clicks B s rest
               else nav_clicks B (try_click B s selector) rest)))"

text \<open>One of the two guarded attempts to find the surface of a modal by its role.\<close>

definition try_dialog ::
  "'w browser \<Rightarrow> 'w session \<Rightarrow> string \<Rightarrow> json \<Rightarrow> locator option \<times> 'w session" where
  "try_dialog B s role title =
     (let dialog = First (ByRole Page (JStr role) title False) in
      case loc_count B (world s) dialog of
        Inl e \<Rightarrow> (None, s)
      | Inr n \<Rightarrow>
          if n > 0 then
            (case act B (WaitVisible dialog) s of
               (Some e, s') \<Rightarrow> (None, s')
             | (None, s') \<Rightarrow> (Some dialog, s'))
          else (None, s))"

definition modal_root :: locator where
  "modal_root =
     First (Css Page (JStr (''#detailSettingsModalRoot, .ui-dialog:visible, [role=''
        @ quoted ''dialog'' @ ''], [role='' @ quoted ''alertdialog'' @ '']'')))"

definition open_container ::
  "'w browser \<Rightarrow> 'w session \<Rightarrow> json \<Rightarrow> (locator \<times> 'w session) result" where
  "open_container B s container =
     ebind (get_default container ''navPath'' (JArr [])) (\<lambda>nav_path.
     ebind (py_iter nav_path) (\<lambda>steps.
     ebind (find_goto steps) (\<lambda>goto_url.
     ebind (if truthy goto_url then
              (case act B (Goto goto_url) s of (Some e, s') \<Rightarrow> Inl e | (None, s') \<Rightarrow> Inr s')
            else Inr s) (\<lambda>s1.
     ebind (nav_clicks B s1 steps) (\<lambda>s2.
     ebind (get container ''type'') (\<lambda>t.
       if t = JStr ''modal'' then
         ebind (get_default container ''title'' (JStr '''')) (\<lambda>title.
           case try_dialog B s2 ''dialog'' title of
             (Some dialog, s3) \<Rightarrow> Inr (dialog, s3)
           | (None, s3) \<Rightarrow>
               (case try_dialog B s3 ''alertdialog'' title of
                  (Some alert, s4) \<Rightarrow> Inr (alert, s4)
                | (None, s4) \<Rightarrow>
                    ebind (loc_count B (world s4) modal_root) (\<lambda>n.
                      if n > 0 then
                        (case act B (WaitVisible modal_root) s4 of
                           (Some e, s5) \<Rightarrow> Inl e
                         | (None, s5) \<Rightarrow> Inr (modal_root, s5))
                      else Inr (Page, s4))))
       else Inr (Page, s2)))))))"

text \<open>
  The guarded body shared by \<^verbatim>\<open>click_save_if_needed\<close> and \<^verbatim>\<open>close_modal\<close>: resolve
  the selector in the scope, else on the page, and click it.  The flag tells whether the
  click went through.
\<close>

definition click_target ::
  "'w browser \<Rightarrow> 'w session \<Rightarrow> locator \<Rightarrow> json \<Rightarrow> bool \<times> 'w session" where
  "click_target B s scope selector =
     (case selector_to_locator scope selector of
        Inl e \<Rightarrow> (False, s)
      | Inr scoped \<Rightarrow>
          (case loc_count B (world s) (First scoped) of
             Inl e \<Rightarrow> (False, s)
           | Inr n \<Rightarrow>
               (case (if n = 0 then ebind (selector_to_locator Page selector) (\<lambda>l. Inr (First l))
                      else Inr (First scoped)) of
                  Inl e \<Rightarrow> (False, s)
                | Inr target \<Rightarrow>
                    (case loc_count B (world s) target of
                       Inl e \<Rightarrow> (False, s)
                     | Inr m \<Rightarrow>
                         if m = 0 then (False, s)
                         else
                           (case act B (Click target) s of
                              (Some e, s') \<Rightarrow> (False, s')
                            | (None, s') \<Rightarrow> (True, s'))))))"

fun save_scan ::
  "'w browser \<Rightarrow> 'w session \<Rightarrow> locator \<Rightarrow> json list \<Rightarrow> (bool \<times> 'w session) result" where
  "save_scan B s scope [] = Inr (False, s)"
| "save_scan B s scope (action # rest) =
     ebind (get action ''kind'') (\<lambda>k.
       if k \<noteq> JStr ''save'' then save_scan B s scope rest
       else
         ebind (get action ''selector'') (\<lambda>selector.
           if \<not> truthy selector then save_scan B s scope rest
           else
             (case click_target B s scope selector of
                (True, s') \<Rightarrow> Inr (True, s')
              | (False, s') \<Rightarrow> save_scan B s' scope rest)))"

definition click_save_if_needed ::
  "'w browser \<Rightarrow> 'w session \<Rightarrow> locator \<Rightarrow> json \<Rightarrow> bool \<Rightarrow> (bool \<times> 'w session) result" where
  "click_save_if_needed B s scope container changed =
     (if \<not> changed then Inr (False, s)
      else
        ebind (get_default container ''actions'' (JArr [])) (\<lambda>actions.
        ebind (py_iter actions) (\<lambda>as. save_scan B s scope as)))"

definition close_action :: "json \<Rightarrow> json list result" where
  "close_action a =
     ebind (get a ''kind'') (\<lambda>k.
       if \<not> hashable k then Inl (unhashable k)
       else Inr (if k \<in> {JStr ''cancel'', JStr ''close''} then [a] else []))"

fun close_scan ::
  "'w browser \<Rightarrow> 'w session \<Rightarrow> locator \<Rightarrow> json list \<Rightarrow> (bool \<times> 'w session) result" where
  "close_scan B s scope [] = Inr (False, s)"
| "close_scan B s scope (action # rest) =
     ebind (get action ''selector'') (\<lambda>selector.
       if \<not> truthy selector then close_scan B s scope rest
       else
         (case click_target B s scope selector of
            (True, s') \<Rightarrow> Inr (True, s')
          | (False, s') \<Rightarrow> close_scan B s' scope rest))"

definition close_modal ::
  "'w browser \<Rightarrow> 'w session \<Rightarrow> locator \<Rightarrow> json \<Rightarrow> 'w session result" where
  "close_modal B s scope container =
     ebind (get container ''type'') (\<lambda>t.
       if t \<noteq> JStr ''modal'' then Inr s
       else
         ebind (get_default container ''actions'' (JArr [])) (\<lambda>actions.
         ebind (py_iter actions) (\<lambda>as.
         ebind (emap close_action as) (\<lambda>close_actions.
         ebind (close_scan B s scope (concat close_actions)) (\<lambda>closed.
           if fst closed then Inr (snd closed)
           else Inr (snd (act B (Press ''Escape'') (snd closed))))))))"

subsection \<open>The run\<close>

text \<open>
  The setting records are Python dicts that \<^verbatim>\<open>main\<close> changes in place, and the same
  objects sit in \<^verbatim>\<open>records\<close>, in \<^verbatim>\<open>settings_by_key\<close> and in
  \<^verbatim>\<open>settings_by_container\<close>.  The records are therefore kept in one list, and the two
  dicts hold positions in it.
\<close>

record 'w run =
  session :: "'w session"
  records :: "json list"
  outcomes :: "json list"
  saved_containers :: "json list"

text \<open>\<^verbatim>\<open>d[k] = v\<close> and \<^verbatim>\<open>d.pop(k)\<close> on a record.\<close>

definition set_item :: "json \<Rightarrow> string \<Rightarrow> json \<Rightarrow> json result" where
  "set_item d k v =
     (case d of
        JObj kvs \<Rightarrow> Inr (JObj (AList.update k v kvs))
      | _ \<Rightarrow> Inl (TypeError (quoted (type_name d) @ '' object does not support item assignment'')))"

definition pop_item :: "json \<Rightarrow> string \<Rightarrow> (json \<times> json) result" where
  "pop_item d k =
     (case d of
        JObj kvs \<Rightarrow>
          (case map_of kvs k of
             Some v \<Rightarrow> Inr (v, JObj (AList.delete k kvs))
           | None \<Rightarrow> Inl (KeyError (repr_str k)))
      | _ \<Rightarrow> Inl (no_attribute d ''pop''))"

text \<open>A loop whose body may raise, over a state.\<close>

fun efold :: "('s \<Rightarrow> 'a \<Rightarrow> 's result) \<Rightarrow> 's \<Rightarrow> 'a list \<Rightarrow> 's result" where
  "efold f st [] = Inr st"
| "efold f st (x # xs) = ebind (f st x) (\<lambda>st'. efold f st' xs)"

definition main_records :: "json \<Rightarrow> json list result" where
  "main_records schema =
     ebind (get schema ''fieldRecords'') (\<lambda>records.
       if truthy records then py_iter records
       else ebind (get_default schema ''settings'' (JArr [])) (\<lambda>settings. py_iter settings))"

definition setting_key :: "json \<Rightarrow> json result" where
  "setting_key item =
     ebind (get item ''field_id'') (\<lambda>f. if truthy f then Inr f else get item ''settingKey'')"

definition key_item :: "nat \<times> json \<Rightarrow> (json \<times> nat) list result" where
  "key_item p =
     ebind (setting_key (snd p)) (\<lambda>k.
       if \<not> truthy k then Inr []
       else if hashable k then Inr [(k, fst p)]
       else Inl (unhashable k))"

definition settings_by_key :: "json list \<Rightarrow> (json \<times> nat) list result" where
  "settings_by_key rs =
     ebind (emap key_item (enumerate 0 rs)) (\<lambda>es.
       Inr (fold (\<lambda>kv d. pydict_set d (fst kv) (snd kv)) (concat es) []))"

text \<open>\<^verbatim>\<open>settings_by_container[k].append(i)\<close> on the \<^verbatim>\<open>defaultdict(list)\<close>.\<close>

fun group_append :: "(json \<times> nat list) list \<Rightarrow> json \<Rightarrow> nat \<Rightarrow> (json \<times> nat list) list" where
  "group_append [] k i = [(k, [i])]"
| "group_append ((k', js) # g) k i =
     (if py_eq k' k then (k', js @ [i]) # g else (k', js) # group_append g k i)"

text \<open>The body of the loop over \<^verbatim>\<open>values.items()\<close>.\<close>

definition group_step ::
  "(json \<times> nat) list \<Rightarrow> json list \<times> (json \<times> nat list) list \<Rightarrow> string \<times> json
     \<Rightarrow> (json list \<times> (json \<times> nat list) list) result" where
  "group_step by_key st kv =
     (case pydict_get by_key (JStr (fst kv)) of
        None \<Rightarrow> Inr st
      | Some i \<Rightarrow>
          if \<not> truthy (fst st ! i) then Inr st
          else
            ebind (set_item (fst st ! i) ''_desired'' (snd kv)) (\<lambda>setting.
            ebind (subscript setting ''containerKey'') (\<lambda>ck.
              if hashable ck then Inr ((fst st)[i := setting], group_append (snd st) ck i)
              else Inl (unhashable ck))))"

definition missing_container_outcome :: "json \<Rightarrow> json \<Rightarrow> json result" where
  "missing_container_outcome container_key setting =
     ebind (get setting ''settingKey'') (\<lambda>sk.
       Inr (JObj [(''settingKey'', sk), (''containerKey'', container_key),
                  (''status'', JStr ''failed''), (''reason'', JStr ''missing-container'')]))"

text \<open>The body of the loop over the settings of one opened container.\<close>

definition apply_one ::
  "'w browser \<Rightarrow> locator \<Rightarrow> json \<Rightarrow> 'w run \<times> nat \<Rightarrow> nat \<Rightarrow> ('w run \<times> nat) result" where
  "apply_one B scope container_key st i =
     ebind (pop_item (records (fst st) ! i) ''_desired'') (\<lambda>popped.
       let desired = fst popped; setting = snd popped in
       ebind (apply_setting B (session (fst st)) scope setting desired) (\<lambda>res.
         let ok = fst (fst res); changed = fst (snd (fst res)); note = snd (snd (fst res));
             status = (if ok then (if changed then ''applied'' else ''skipped'') else ''failed'');
             changed_count = (if ok \<and> changed then snd st + 1 else snd st)
         in
           ebind (get setting ''settingKey'') (\<lambda>sk.
           ebind (get setting ''type'') (\<lambda>ty.
             Inr ((fst st)\<lparr> session := snd res,
                             records := (records (fst st))[i := setting],
                             outcomes := outcomes (fst st) @
                               [JObj [(''settingKey'', sk), (''containerKey'', container_key),
                                      (''type'', ty), (''desired'', desired),
                                      (''status'', JStr status), (''detail'', JStr note)]] \<rparr>,
                  changed_count)))))"

text \<open>\<^verbatim>\<open>d.get(k)\<close> on a dict with arbitrary hashable keys.\<close>

definition pydict_get_or_none :: "(json \<times> json) list \<Rightarrow> json \<Rightarrow> json" where
  "pydict_get_or_none d k = (case pydict_get d k of None \<Rightarrow> JNull | Some v \<Rightarrow> v)"

text \<open>The body of the loop over \<^verbatim>\<open>settings_by_container.items()\<close>.\<close>

definition apply_container ::
  "'w browser \<Rightarrow> (json \<times> json) list \<Rightarrow> 'w run \<Rightarrow> json \<times> nat list \<Rightarrow> 'w run result" where
  "apply_container B containers r grp =
     (let container_key = fst grp; container_settings = snd grp;
          container = pydict_get_or_none containers container_key
      in
      if \<not> truthy container then
        ebind (emap (\<lambda>i. missing_container_outcome container_key (records r ! i)) container_settings)
          (\<lambda>os. Inr (r\<lparr> outcomes := outcomes r @ os \<rparr>))
      else
        ebind (open_container B (session r) container) (\<lambda>opened.
        ebind (efold (apply_one B (fst opened) container_key) (r\<lparr> session := snd opened \<rparr>, 0)
                 container_settings) (\<lambda>st.
        ebind (click_save_if_needed B (session (fst st)) (fst opened) container (snd st > 0))
          (\<lambda>saved.
        ebind (close_modal B (snd saved) (fst opened) container) (\<lambda>s'.
          Inr ((fst st)\<lparr> session := s',
                          saved_containers := saved_containers (fst st) @
                            (if fst saved then [container_key] else []) \<rparr>))))))"

definition values_items :: "json \<Rightarrow> (string \<times> json) list result" where
  "values_items v = (case v of JObj kvs \<Rightarrow> Inr kvs | _ \<Rightarrow> Inl (no_attribute v ''items''))"

text \<open>
  \<^verbatim>\<open>main\<close>, from the two parsed documents and the freshly opened page to the state
  from which the report is written.
\<close>

definition main :: "'w browser \<Rightarrow> 'w \<Rightarrow> json \<Rightarrow> json \<Rightarrow> 'w run result" where
  "main B w schema raw_values =
     ebind (load_values raw_values) (\<lambda>values.
     ebind (main_records schema) (\<lambda>rs.
     ebind (settings_by_key rs) (\<lambda>by_key.
     ebind (containers_by_key schema) (\<lambda>containers.
     ebind (values_items values) (\<lambda>items.
     ebind (efold (group_step by_key) (rs, []) items) (\<lambda>grouped.
       efold (apply_container B containers)
         \<lparr> session = \<lparr> world = w, trace = [] \<rparr>, records = fst grouped,
           outcomes = [], saved_containers = [] \<rparr>
         (snd grouped)))))))"

text \<open>The counts of the report and the exit status.\<close>

definition count_status :: "string \<Rightarrow> json list \<Rightarrow> nat" where
  "count_status st os = length (filter (\<lambda>item. subscript item ''status'' = Inr (JStr st)) os)"

definition exit_status :: "'w run \<Rightarrow> nat" where
  "exit_status r = (if count_status ''failed'' (outcomes r) > 0 then 1 else 0)"

section \<open>Example documents and pages\<close>

text \<open>
  Two captures of one settings page.  Between them the radio options swap places, the
  dropdown gains its options, the first timestamp field changes its type, the second
  timestamp field and the text field change their identifiers, and a container appears.
\<close>

definition stamp_a :: json where
  "stamp_a =
     JObj [(''settingKey'', JStr ''stamp''), (''containerKey'', JStr ''c1''),
           (''label'', JStr ''Last Updated''), (''type'', JStr ''text_display''),
           (''currentValue'', JStr ''2024/01/01 10:00'')]"

definition stamp_b :: json where
  "stamp_b =
     JObj [(''settingKey'', JStr ''stamp''), (''containerKey'', JStr ''c1''),
           (''label'', JStr ''Last Updated''), (''type'', JStr ''textbox''),
           (''currentValue'', JStr ''2024/01/01 10:00'')]"

definition clock_a :: json where
  "clock_a =
     JObj [(''settingKey'', JStr ''clock''), (''containerKey'', JStr ''c1''),
           (''groupTitle'', JStr ''Status''),
           (''label'', JStr ''Last Updated''), (''type'', JStr ''text_display''),
           (''currentValue'', JStr ''2024/01/01 10:00'')]"

definition clock_b :: json where
  "clock_b =
     JObj [(''settingKey'', JStr ''clock2''), (''containerKey'', JStr ''c1''),
           (''groupTitle'', JStr ''Status''),
           (''label'', JStr ''Last Updated''), (''type'', JStr ''text_display''),
           (''currentValue'', JStr ''2024/01/01 10:00'')]"

definition snapshot_a :: json where
  "snapshot_a =
     JObj [(''containers'', JArr [JObj [(''containerKey'', JStr ''c1''), (''type'', JStr ''page'')]]),
           (''settings'', JArr [
              JObj [(''settingKey'', JStr ''mode''), (''containerKey'', JStr ''c1''),
                    (''label'', JStr ''Mode''), (''type'', JStr ''radio_group''),
                    (''options'', JArr [JObj [(''label'', JStr ''A'')], JObj [(''label'', JStr ''B'')]])],
              JObj [(''settingKey'', JStr ''speed''), (''containerKey'', JStr ''c1''),
                    (''label'', JStr ''Speed''), (''type'', JStr ''dropdown_native''),
                    (''options'', JArr [])],
              stamp_a,
              clock_a,
              JObj [(''settingKey'', JStr ''name''), (''containerKey'', JStr ''c1''),
                    (''label'', JStr ''Name''), (''type'', JStr ''textbox'')]])]"

definition snapshot_b :: json where
  "snapshot_b =
     JObj [(''containers'', JArr [JObj [(''containerKey'', JStr ''c1''), (''type'', JStr ''page'')],
                                  JObj [(''containerKey'', JStr ''c2''), (''type'', JStr ''modal'')]]),
           (''settings'', JArr [
              JObj [(''settingKey'', JStr ''mode''), (''containerKey'', JStr ''c1''),
                    (''label'', JStr ''Mode''), (''type'', JStr ''radio_group''),
                    (''options'', JArr [JObj [(''label'', JStr ''B'')], JObj [(''label'', JStr ''A'')]])],
              JObj [(''settingKey'', JStr ''speed''), (''containerKey'', JStr ''c1''),
                    (''label'', JStr ''Speed''), (''type'', JStr ''dropdown_native''),
                    (''options'', JArr [JObj [(''value'', JStr ''1''), (''label'', JStr ''Fast'')]])],
              stamp_b,
              clock_b,
              JObj [(''settingKey'', JStr ''name2''), (''containerKey'', JStr ''c1''),
                    (''label'', JStr ''Name''), (''type'', JStr ''textbox'')]])]"

text \<open>What the detector reports for the two captures, and for the second against itself.\<close>

definition diff_a_b :: diff where
  "diff_a_b =
     \<lparr> containers_added = [JStr ''c2''], containers_removed = [],
       settings_added = [''clock2'', ''name2''], settings_removed = [''clock'', ''name''],
       labelOrTypeChanged =
         [JObj [(''settingKey'', JStr ''stamp''),
                (''first'', JObj [(''label'', JStr ''Last Updated''), (''type'', JStr ''text_display'')]),
                (''second'', JObj [(''label'', JStr ''Last Updated''), (''type'', JStr ''textbox'')])]],
       fieldIdDrift =
         [JObj [(''signature'', JStr ''c1||Name|textbox''), (''firstFieldId'', JStr ''name''),
                (''secondFieldId'', JStr ''name2'')]],
       dropdownsMissingOptionsA =
         [JObj [(''fieldId'', JStr ''speed''), (''label'', JStr ''Speed''),
                (''reason'', JStr ''dropdown has empty options[]'')]],
       dropdownsMissingOptionsB = [],
       radioOrderingChangedWithoutLabelChange =
         [JObj [(''signature'', JStr ''c1||Mode|radio_group''),
                (''firstOrder'', JArr [JStr ''A'', JStr ''B'']),
                (''secondOrder'', JArr [JStr ''B'', JStr ''A''])]] \<rparr>"

definition diff_empty :: diff where
  "diff_empty =
     \<lparr> containers_added = [], containers_removed = [], settings_added = [],
       settings_removed = [], labelOrTypeChanged = [], fieldIdDrift = [],
       dropdownsMissingOptionsA = [], dropdownsMissingOptionsB = [],
       radioOrderingChangedWithoutLabelChange = [] \<rparr>"

text \<open>Two captures of a radio group whose options repeat a label.\<close>

definition radio_dup_a :: json where
  "radio_dup_a =
     JObj [(''settings'', JArr [
              JObj [(''settingKey'', JStr ''mode''), (''containerKey'', JStr ''c1''),
                    (''label'', JStr ''Mode''), (''type'', JStr ''radio_group''),
                    (''options'', JArr [JObj [(''label'', JStr ''A'')], JObj [(''label'', JStr ''A'')],
                                        JObj [(''label'', JStr ''B'')]])]])]"

definition radio_dup_b :: json where
  "radio_dup_b =
     JObj [(''settings'', JArr [
              JObj [(''settingKey'', JStr ''mode''), (''containerKey'', JStr ''c1''),
                    (''label'', JStr ''Mode''), (''type'', JStr ''radio_group''),
                    (''options'', JArr [JObj [(''label'', JStr ''A'')], JObj [(''label'', JStr ''B'')],
                                        JObj [(''label'', JStr ''B'')]])]])]"

text \<open>
  A form on a page: a text field, a table, a field whose class selector matches two
  elements while its label selector matches one, and a checkbox whose container the
  schema does not list.  The container has a save button.
\<close>

definition name_field :: json where
  "name_field =
     JObj [(''settingKey'', JStr ''name''), (''containerKey'', JStr ''c1''),
           (''type'', JStr ''textbox''),
           (''selectors'', JObj [(''primary'', JObj [(''kind'', JStr ''css''), (''value'', JStr ''#name'')]),
                                 (''fallbacks'', JArr [])])]"

definition grid_field :: json where
  "grid_field =
     JObj [(''settingKey'', JStr ''grid''), (''containerKey'', JStr ''c1''),
           (''type'', JStr ''table''),
           (''selectors'', JObj [(''primary'', JObj [(''kind'', JStr ''css''), (''value'', JStr ''#grid'')]),
                                 (''fallbacks'', JArr [])])]"

definition host_field :: json where
  "host_field =
     JObj [(''settingKey'', JStr ''host''), (''containerKey'', JStr ''c1''),
           (''type'', JStr ''textbox''),
           (''selectors'', JObj [(''primary'', JObj [(''kind'', JStr ''css''), (''value'', JStr ''.field'')]),
                                 (''fallbacks'', JArr [JObj [(''kind'', JStr ''label''), (''text'', JStr ''Host'')]])])]"

definition orphan_field :: json where
  "orphan_field =
     JObj [(''settingKey'', JStr ''orphan''), (''containerKey'', JStr ''c2''),
           (''type'', JStr ''checkbox'')]"

definition form_container :: json where
  "form_container =
     JObj [(''containerKey'', JStr ''c1''), (''type'', JStr ''page''),
           (''actions'', JArr [JObj [(''kind'', JStr ''save''),
                                     (''selector'', JObj [(''kind'', JStr ''css''), (''value'', JStr ''#save'')])]])]"

definition form_schema :: json where
  "form_schema =
     JObj [(''containers'', JArr [form_container]),
           (''settings'', JArr [name_field, grid_field, host_field, orphan_field])]"

definition form_counts :: "locator \<Rightarrow> nat" where
  "form_counts l = (if l = Css Page (JStr ''.field'') then 2 else 1)"

text \<open>A page that stays as it is whatever is done to it, and a page whose fields take text.\<close>

definition frozen_page :: "(locator \<Rightarrow> nat) \<Rightarrow> string \<Rightarrow> bool \<Rightarrow> unit browser" where
  "frozen_page cnt v c =
     \<lparr> loc_count = (\<lambda>w l. Inr (cnt l)), loc_input_value = (\<lambda>w l. Inr v),
       loc_is_checked = (\<lambda>w l. Inr c), loc_inner_text = (\<lambda>w l. Inr v),
       perform = (\<lambda>a w. (None, w)) \<rparr>"

definition text_page :: "(locator \<Rightarrow> nat) \<Rightarrow> string browser" where
  "text_page cnt =
     \<lparr> loc_count = (\<lambda>w l. Inr (cnt l)), loc_input_value = (\<lambda>w l. Inr w),
       loc_is_checked = (\<lambda>w l. Inr False), loc_inner_text = (\<lambda>w l. Inr w),
       perform = (\<lambda>a w. (None, case a of Fill l t \<Rightarrow> t | _ \<Rightarrow> w)) \<rparr>"

text \<open>
  A record as the grouping loop leaves it, and the state in which the loop over the
  settings of an opened container starts when the group holds that one record.
\<close>

definition with_desired :: "json \<Rightarrow> json \<Rightarrow> json" where
  "with_desired setting v =
     (case set_item setting ''_desired'' v of Inr marked \<Rightarrow> marked | Inl e \<Rightarrow> setting)"

definition one_record_run :: "'w \<Rightarrow> json \<Rightarrow> 'w run" where
  "one_record_run w setting =
     \<lparr> session = \<lparr> world = w, trace = [] \<rparr>, records = [setting],
       outcomes = [], saved_containers = [] \<rparr>"

text \<open>
  Desired values for the name field, whose container the schema lists, and for the
  checkbox, whose container it does not list; and the state in which the run over the
  form with these values ends on a page whose fields take text.
\<close>

definition form_values :: json where
  "form_values = JObj [(''name'', JStr ''new''), (''orphan'', JBool True)]"

definition form_run_end :: "string run" where
  "form_run_end =
     \<lparr> session = \<lparr> world = ''new'',
                    trace = [Fill (First (Css Page (JStr ''#name''))) ''new'',
                             Click (First (Css Page (JStr ''#save'')))] \<rparr>,
       records = [name_field, grid_field, host_field, with_desired orphan_field (JBool True)],
       outcomes =
         [JObj [(''settingKey'', JStr ''name''), (''containerKey'', JStr ''c1''),
                (''type'', JStr ''textbox''), (''desired'', JStr ''new''),
                (''status'', JStr ''applied''), (''detail'', JStr ''primary'')],
          JObj [(''settingKey'', JStr ''orphan''), (''containerKey'', JStr ''c2''),
                (''status'', JStr ''failed''), (''reason'', JStr ''missing-container'')]],
       saved_containers = [JStr ''c1''] \<rparr>"

text \<open>
  The containers of the form by key, and the state in which the group of the name field
  ends on the page that ignores what is typed into it.
\<close>

definition form_containers :: "(json \<times> json) list" where
  "form_containers = [(JStr ''c1'', form_container)]"

definition unverified_run_end :: "unit run" where
  "unverified_run_end =
     \<lparr> session = \<lparr> world = (), trace = [Fill (First (Css Page (JStr ''#name''))) ''new''] \<rparr>,
       records = [name_field],
       outcomes =
         [JObj [(''settingKey'', JStr ''name''), (''containerKey'', JStr ''c1''),
                (''type'', JStr ''textbox''), (''desired'', JStr ''new''),
                (''status'', JStr ''failed''), (''detail'', JStr ''verification-failed'')]],
       saved_containers = [] \<rparr>"

section \<open>Invariants of a run\<close>

text \<open>
  What holds of the records and of \<^verbatim>\<open>settings_by_container\<close> throughout the loop
  over \<^verbatim>\<open>values.items()\<close>: every position in a group is a position of the record
  list, the record there carries \<^verbatim>\<open>_desired\<close>, and its \<^verbatim>\<open>containerKey\<close> is the
  key of the group; no two groups have the same key.
\<close>

definition grouped_ok :: "json list \<Rightarrow> (json \<times> nat list) list \<Rightarrow> bool" where
  "grouped_ok rs groups \<longleftrightarrow>
     list_all (\<lambda>g. list_all (\<lambda>i. i < length rs
                  \<and> py_in ''_desired'' (rs ! i) = Inr True
                  \<and> (case subscript (rs ! i) ''containerKey'' of
                        Inr ck \<Rightarrow> py_eq (fst g) ck | Inl e \<Rightarrow> False)) (snd g)) groups
     \<and> distinct (map (\<lambda>g. key_norm (fst g)) groups)"

section \<open>Auxiliary facts\<close>

subsection \<open>Exceptions and loops\<close>

lemma ebind_Inr [simp]: "ebind (Inr x) f = f x"
  by (simp add: ebind_def)

lemma ebind_Inl [simp]: "ebind (Inl e) f = Inl e"
  by (simp add: ebind_def)

lemma ebind_eq_Inr: "ebind m f = Inr y \<longleftrightarrow> (\<exists>x. m = Inr x \<and> f x = Inr y)"
  by (cases m) simp_all

lemma ebindE:
  assumes "ebind m f = Inr y"
  obtains x where "m = Inr x" and "f x = Inr y"
  using assms by (auto simp: ebind_eq_Inr)

lemma emap_Cons_Inr:
  "emap f (x # xs) = Inr rs \<longleftrightarrow> (\<exists>r rs'. f x = Inr r \<and> emap f xs = Inr rs' \<and> rs = r # rs')"
  by (auto simp: ebind_eq_Inr)

lemma emap_at:
  assumes "emap f xs = Inr rs" and "x \<in> set xs"
  shows "\<exists>r. f x = Inr r \<and> r \<in> set rs"
  using assms
proof (induction xs arbitrary: rs)
  case Nil
  then show ?case by simp
next
  case (Cons a xs)
  then show ?case by (auto simp: ebind_eq_Inr)
qed

lemma emap_origin:
  assumes "emap f xs = Inr rs" and "r \<in> set rs"
  shows "\<exists>x\<in>set xs. f x = Inr r"
  using assms
proof (induction xs arbitrary: rs)
  case Nil
  then show ?case by simp
next
  case (Cons a xs)
  then show ?case by (auto simp: ebind_eq_Inr)
qed

lemma emap_succeeds:
  assumes "\<And>x. x \<in> set xs \<Longrightarrow> \<exists>r. f x = Inr r"
  shows "\<exists>rs. emap f xs = Inr rs"
  using assms
proof (induction xs)
  case Nil
  then show ?case by simp
next
  case (Cons a xs)
  then obtain r where "f a = Inr r" by force
  moreover from Cons obtain rs where "emap f xs = Inr rs" by force
  ultimately show ?case by simp
qed

lemma emap_concat_nil:
  assumes "emap f xs = Inr rs" and "\<And>x r. x \<in> set xs \<Longrightarrow> f x = Inr r \<Longrightarrow> r = []"
  shows "concat rs = []"
proof -
  have "r = []" if "r \<in> set rs" for r
    using emap_origin [OF assms(1) that] assms(2) by blast
  then show ?thesis by auto
qed

lemma emap_concat_filter:
  assumes "emap f ks = Inr rs" and "distinct ks" and "k \<in> set ks" and "f k = Inr r"
    and "\<And>k' r' e. k' \<in> set ks \<Longrightarrow> k' \<noteq> k \<Longrightarrow> f k' = Inr r' \<Longrightarrow> e \<in> set r' \<Longrightarrow> \<not> P e"
  shows "filter P (concat rs) = filter P r"
  using assms
proof (induction ks arbitrary: rs)
  case Nil
  then show ?case by simp
next
  case (Cons a ks)
  from Cons.prems(1) obtain ra rs' where
    a: "f a = Inr ra" and rest: "emap f ks = Inr rs'" and rs: "rs = ra # rs'"
    by (auto simp: ebind_eq_Inr)
  show ?case
  proof (cases "a = k")
    case True
    with Cons.prems have notin: "k \<notin> set ks" by simp
    have "filter P (concat rs') = []"
    proof -
      have "\<not> P e" if "e \<in> set (concat rs')" for e
      proof -
        from that obtain r' where r': "r' \<in> set rs'" and e: "e \<in> set r'" by auto
        from emap_origin [OF rest r'] obtain k' where "k' \<in> set ks" and "f k' = Inr r'" by blast
        with notin e Cons.prems(5) [of k' r' e] show ?thesis by auto
      qed
      then show ?thesis by (simp add: filter_empty_conv)
    qed
    with True a Cons.prems(4) rs show ?thesis by simp
  next
    case False
    with Cons.prems have kin: "k \<in> set ks" and dist: "distinct ks" by auto
    have "filter P ra = []"
      using Cons.prems(5) [of a ra] a False by (simp add: filter_empty_conv)
    moreover have "filter P (concat rs') = filter P r"
      using Cons.IH [OF rest dist kin Cons.prems(4)] Cons.prems(5) by auto
    ultimately show ?thesis using rs by simp
  qed
qed

subsection \<open>Dicts and key sets\<close>

lemma map_of_dict_of: "map_of (dict_of kvs) k = map_of (rev kvs) k"
proof -
  have "map_of (fold (\<lambda>kv d. AList.update (fst kv) (snd kv) d) kvs d) k
        = (case map_of (rev kvs) k of Some v \<Rightarrow> Some v | None \<Rightarrow> map_of d k)" for d
    by (induction kvs arbitrary: d) (auto simp: update_conv' map_add_def split: option.splits)
  from this [of "[]"] show ?thesis by (simp add: dict_of_def split: option.splits)
qed

lemma dict_of_SomeD: "map_of (dict_of kvs) k = Some v \<Longrightarrow> (k, v) \<in> set kvs"
  by (auto simp: map_of_dict_of dest: map_of_SomeD)

lemma sorted_inter_commute: "sorted_inter a b = sorted_inter b a"
proof -
  have "set (sorted_inter a b) = set (sorted_inter b a)" by (auto simp: sorted_inter_def)
  moreover have "sorted (sorted_inter a b)" "distinct (sorted_inter a b)"
    "sorted (sorted_inter b a)" "distinct (sorted_inter b a)"
    by (simp_all add: sorted_inter_def)
  ultimately show ?thesis by (rule sorted_distinct_set_unique [rotated 4]) 
qed

lemma set_sorted_inter: "set (sorted_inter a b) = set a \<inter> set b"
  by (auto simp: sorted_inter_def)

lemma distinct_sorted_inter: "distinct (sorted_inter a b)"
  by (simp add: sorted_inter_def)

lemma sorted_minus_self: "sorted_minus a a = []"
  by (simp add: sorted_minus_def)

lemma py_eq_refl: "py_eq k k"
  by (simp add: py_eq_def)

lemma keys_minus_self: "keys_minus ks ks = []"
  using py_eq_refl by (auto simp: keys_minus_def filter_empty_conv list_ex_iff)

lemma py_sorted_Nil: "py_sorted [] = Inr []"
  by (simp add: py_sorted_def)

lemma dict_item_Inr: "dict_item d k = Inr v \<longleftrightarrow> map_of d k = Some v"
  by (simp add: dict_item_def split: option.splits)

lemma sort_eq_iff_mset: "sort xs = sort ys \<longleftrightarrow> mset xs = mset ys"
proof
  assume "sort xs = sort ys"
  then have "mset (sort xs) = mset (sort ys)" by simp
  then show "mset xs = mset ys" by simp
next
  assume "mset xs = mset ys"
  then show "sort xs = sort ys"
    by (metis mset_sort sorted_sort properties_for_sort)
qed

lemma map_of_in_keys: "map_of m k = Some v \<Longrightarrow> k \<in> set (map fst m)"
  by (metis map_of_eq_None_iff option.distinct(1) set_map)

lemma get_of_dict:
  "get (JObj kvs) k = Inr (case map_of kvs k of Some v \<Rightarrow> v | None \<Rightarrow> JNull)"
  by (simp add: get_def get_default_def)

lemma emap_concat_origin:
  assumes "emap f xs = Inr rs" and "y \<in> set (concat rs)"
  shows "\<exists>x\<in>set xs. \<exists>r. f x = Inr r \<and> y \<in> set r"
proof -
  from assms(2) obtain r where "r \<in> set rs" and "y \<in> set r" by auto
  with emap_origin [OF assms(1)] show ?thesis by blast
qed

subsection \<open>Substrings\<close>

lemma starts_with_iff: "starts_with p s \<longleftrightarrow> (\<exists>ss. s = p @ ss)"
  by (induction p s rule: starts_with.induct) auto

lemma py_contains_iff: "py_contains sub s \<longleftrightarrow> (\<exists>ps ss. s = ps @ sub @ ss)"
proof (induction s)
  case Nil
  then show ?case by simp
next
  case (Cons c cs)
  show ?case
  proof
    assume "py_contains sub (c # cs)"
    then consider "starts_with sub (c # cs)" | "py_contains sub cs" by auto
    then show "\<exists>ps ss. c # cs = ps @ sub @ ss"
    proof cases
      case 1
      then obtain ss where "c # cs = sub @ ss" by (auto simp: starts_with_iff)
      then have "c # cs = [] @ sub @ ss" by simp
      then show ?thesis by blast
    next
      case 2
      with Cons.IH obtain ps ss where "cs = ps @ sub @ ss" by blast
      then have "c # cs = (c # ps) @ sub @ ss" by simp
      then show ?thesis by blast
    qed
  next
    assume "\<exists>ps ss. c # cs = ps @ sub @ ss"
    then obtain ps ss where eq: "c # cs = ps @ sub @ ss" by blast
    show "py_contains sub (c # cs)"
    proof (cases ps)
      case Nil
      with eq have "starts_with sub (c # cs)" by (auto simp: starts_with_iff)
      then show ?thesis by simp
    next
      case (Cons p ps')
      with eq have "cs = ps' @ sub @ ss" by simp
      with Cons.IH have "py_contains sub cs" by blast
      then show ?thesis by simp
    qed
  qed
qed

section \<open>Properties of the normalization utilities\<close>

text \<open>
  C9.  \<^verbatim>\<open>normalize_bool\<close> on a string that, trimmed and lowercased, is in neither
  the recognized true set nor the recognized false set, falls back to the truthiness of
  the string as given: the result is true exactly when the string is not empty, so a
  string of whitespace only gives true and the empty string gives false.
\<close>

theorem normalize_bool_unrecognized_string:
  assumes "py_lower (py_strip s) \<notin> {''true'', ''1'', ''yes'', ''on''}"
    and "py_lower (py_strip s) \<notin> {''false'', ''0'', ''no'', ''off''}"
  shows "normalize_bool (JStr s) = (s \<noteq> [])"
  using assms by (simp add: normalize_bool_def Let_def)

theorem normalize_bool_unrecognized_string_witness:
  "py_lower (py_strip '' '') \<notin> {''true'', ''1'', ''yes'', ''on''}
   \<and> py_lower (py_strip '' '') \<notin> {''false'', ''0'', ''no'', ''off''}
   \<and> normalize_bool (JStr '' '') = True
   \<and> py_lower (py_strip '''') \<notin> {''true'', ''1'', ''yes'', ''on''}
   \<and> py_lower (py_strip '''') \<notin> {''false'', ''0'', ''no'', ''off''}
   \<and> normalize_bool (JStr '''') = False"
proof -
  have a: "py_lower (py_strip '' '') \<notin> {''true'', ''1'', ''yes'', ''on''}" by code_simp
  have b: "py_lower (py_strip '' '') \<notin> {''false'', ''0'', ''no'', ''off''}" by code_simp
  have c: "py_lower (py_strip '''') \<notin> {''true'', ''1'', ''yes'', ''on''}" by code_simp
  have d: "py_lower (py_strip '''') \<notin> {''false'', ''0'', ''no'', ''off''}" by code_simp
  show ?thesis
    using a b c d normalize_bool_unrecognized_string [OF a b]
      normalize_bool_unrecognized_string [OF c d]
    by simp
qed

section \<open>Properties of the schema drift detector\<close>

text \<open>What a completed comparison has computed on its way.\<close>

lemma compare_schemasE:
  assumes "compare_schemas A B = Inr d"
  obtains fc sc fl sl fs ss ca cr ch fm sm fd fr sr rc ma mb where
    "containers_by_key A = Inr fc" and "containers_by_key B = Inr sc"
    and "schema_settings A = Inr fl" and "schema_settings B = Inr sl"
    and "settings_by_id fl = Inr fs" and "settings_by_id sl = Inr ss"
    and "py_sorted (keys_minus (map fst sc) (map fst fc)) = Inr ca"
    and "py_sorted (keys_minus (map fst fc) (map fst sc)) = Inr cr"
    and "emap (label_or_type_entry fs ss) (sorted_inter (map fst fs) (map fst ss)) = Inr ch"
    and "signature_map fl = Inr fm" and "signature_map sl = Inr sm"
    and "emap (drift_entry fm sm) (sorted_inter (map fst fm) (map fst sm)) = Inr fd"
    and "radio_order_index fl = Inr fr" and "radio_order_index sl = Inr sr"
    and "emap (radio_change_entry fr sr) (sorted_inter (map fst fr) (map fst sr)) = Inr rc"
    and "dropdown_missing_options fl = Inr ma" and "dropdown_missing_options sl = Inr mb"
    and "d = \<lparr> containers_added = ca, containers_removed = cr,
               settings_added = sorted_minus (map fst ss) (map fst fs),
               settings_removed = sorted_minus (map fst fs) (map fst ss),
               labelOrTypeChanged = concat ch, fieldIdDrift = concat fd,
               dropdownsMissingOptionsA = ma, dropdownsMissingOptionsB = mb,
               radioOrderingChangedWithoutLabelChange = concat rc \<rparr>"
  using assms unfolding compare_schemas_def by (elim ebindE) auto


text \<open>
  C3.  Comparing a snapshot with itself, when the comparison completes, reports no
  container or setting added or removed, no label or type change, no identifier drift
  and no radio reordering.  The two lists of dropdowns without options are both the
  list of the snapshot's own dropdowns whose \<^verbatim>\<open>options\<close> are empty, and drift is
  detected exactly when that list is not empty.
\<close>

theorem compare_schemas_self:
  assumes "compare_schemas S S = Inr d"
  shows "containers_added d = [] \<and> containers_removed d = []
       \<and> settings_added d = [] \<and> settings_removed d = []
       \<and> labelOrTypeChanged d = [] \<and> fieldIdDrift d = []
       \<and> radioOrderingChangedWithoutLabelChange d = []
       \<and> dropdownsMissingOptionsB d = dropdownsMissingOptionsA d
       \<and> (\<exists>ls. schema_settings S = Inr ls
                \<and> dropdown_missing_options ls = Inr (dropdownsMissingOptionsA d))
       \<and> has_drift d = (dropdownsMissingOptionsA d \<noteq> [])"
proof -
  from assms obtain fc sc fl sl fs ss ca cr ch fm sm fd fr sr rc ma mb where
    fc: "containers_by_key S = Inr fc" and sc: "containers_by_key S = Inr sc"
    and fl: "schema_settings S = Inr fl" and sl: "schema_settings S = Inr sl"
    and fs: "settings_by_id fl = Inr fs" and ss: "settings_by_id sl = Inr ss"
    and ca: "py_sorted (keys_minus (map fst sc) (map fst fc)) = Inr ca"
    and cr: "py_sorted (keys_minus (map fst fc) (map fst sc)) = Inr cr"
    and ch: "emap (label_or_type_entry fs ss) (sorted_inter (map fst fs) (map fst ss)) = Inr ch"
    and fm: "signature_map fl = Inr fm" and sm: "signature_map sl = Inr sm"
    and fd: "emap (drift_entry fm sm) (sorted_inter (map fst fm) (map fst sm)) = Inr fd"
    and fr: "radio_order_index fl = Inr fr" and sr: "radio_order_index sl = Inr sr"
    and rc: "emap (radio_change_entry fr sr) (sorted_inter (map fst fr) (map fst sr)) = Inr rc"
    and ma: "dropdown_missing_options fl = Inr ma" and mb: "dropdown_missing_options sl = Inr mb"
    and d: "d = \<lparr> containers_added = ca, containers_removed = cr,
                   settings_added = sorted_minus (map fst ss) (map fst fs),
                   settings_removed = sorted_minus (map fst fs) (map fst ss),
                   labelOrTypeChanged = concat ch, fieldIdDrift = concat fd,
                   dropdownsMissingOptionsA = ma, dropdownsMissingOptionsB = mb,
                   radioOrderingChangedWithoutLabelChange = concat rc \<rparr>"
    by (rule compare_schemasE)
  from fc sc have [simp]: "sc = fc" by simp
  from fl sl have [simp]: "sl = fl" by simp
  from fs ss have [simp]: "ss = fs" by simp
  from fm sm have [simp]: "sm = fm" by simp
  from fr sr have [simp]: "sr = fr" by simp
  from ma mb have [simp]: "mb = ma" by simp
  from ca have ca': "ca = []" by (simp add: keys_minus_self py_sorted_Nil)
  from cr have cr': "cr = []" by (simp add: keys_minus_self py_sorted_Nil)
  have ch': "concat ch = []"
  proof (rule emap_concat_nil [OF ch])
    fix k r
    assume "label_or_type_entry fs ss k = Inr r"
    then show "r = []"
      unfolding label_or_type_entry_def by (elim ebindE) auto
  qed
  have fd': "concat fd = []"
  proof (rule emap_concat_nil [OF fd])
    fix k r
    assume "drift_entry fm sm k = Inr r"
    then show "r = []"
      unfolding drift_entry_def by (elim ebindE) auto
  qed
  have rc': "concat rc = []"
  proof (rule emap_concat_nil [OF rc])
    fix k r
    assume "radio_change_entry fr sr k = Inr r"
    then show "r = []"
      unfolding radio_change_entry_def by (elim ebindE) auto
  qed
  show ?thesis
    using fl ma by (simp add: d ca' cr' ch' fd' rc' sorted_minus_self has_drift_def)
qed

theorem compare_schemas_self_witness:
  "compare_schemas snapshot_b snapshot_b = Inr diff_empty
   \<and> has_drift diff_empty = False
   \<and> compare_schemas snapshot_a snapshot_a = Inr (diff_empty \<lparr> dropdownsMissingOptionsA := dropdownsMissingOptionsA diff_a_b,
          dropdownsMissingOptionsB := dropdownsMissingOptionsA diff_a_b \<rparr>)
   \<and> labelOrTypeChanged (diff_empty \<lparr> dropdownsMissingOptionsA := dropdownsMissingOptionsA diff_a_b,
          dropdownsMissingOptionsB := dropdownsMissingOptionsA diff_a_b \<rparr>) = []"
proof -
  have b: "compare_schemas snapshot_b snapshot_b = Inr diff_empty" by code_simp
  have a: "compare_schemas snapshot_a snapshot_a = Inr (diff_empty \<lparr> dropdownsMissingOptionsA := dropdownsMissingOptionsA diff_a_b,
          dropdownsMissingOptionsB := dropdownsMissingOptionsA diff_a_b \<rparr>)" by code_simp
  have e: "dropdownsMissingOptionsA diff_empty = []" by (simp add: diff_empty_def)
  show ?thesis
    using a b e compare_schemas_self [OF b] compare_schemas_self [OF a] by simp
qed

text \<open>
  The first capture has a dropdown without options: compared with itself it reports that
  dropdown, and drift.
\<close>

theorem compare_schemas_self_counterexample:
  "map_sum id has_drift (compare_schemas snapshot_a snapshot_a) = Inr True
   \<and> map_sum id dropdownsMissingOptionsA (compare_schemas snapshot_a snapshot_a)
       = Inr [JObj [(''fieldId'', JStr ''speed''), (''label'', JStr ''Speed''),
                    (''reason'', JStr ''dropdown has empty options[]'')]]"
  by code_simp

text \<open>
  C7.  Whenever the comparison of \<open>A\<close> with \<open>B\<close> completes, so does the comparison of
  \<open>B\<close> with \<open>A\<close>, and what one reports as added the other reports as removed, for
  container keys and for setting identifiers.
\<close>

theorem compare_schemas_added_removed_symmetric:
  assumes "compare_schemas A B = Inr d"
  shows "\<exists>d'. compare_schemas B A = Inr d'
           \<and> containers_added d = containers_removed d'
           \<and> settings_added d = settings_removed d'
           \<and> containers_removed d = containers_added d'
           \<and> settings_removed d = settings_added d'"
proof -
  from assms obtain fc sc fl sl fs ss ca cr ch fm sm fd fr sr rc ma mb where
    fc: "containers_by_key A = Inr fc" and sc: "containers_by_key B = Inr sc"
    and fl: "schema_settings A = Inr fl" and sl: "schema_settings B = Inr sl"
    and fs: "settings_by_id fl = Inr fs" and ss: "settings_by_id sl = Inr ss"
    and ca: "py_sorted (keys_minus (map fst sc) (map fst fc)) = Inr ca"
    and cr: "py_sorted (keys_minus (map fst fc) (map fst sc)) = Inr cr"
    and ch: "emap (label_or_type_entry fs ss) (sorted_inter (map fst fs) (map fst ss)) = Inr ch"
    and fm: "signature_map fl = Inr fm" and sm: "signature_map sl = Inr sm"
    and fd: "emap (drift_entry fm sm) (sorted_inter (map fst fm) (map fst sm)) = Inr fd"
    and fr: "radio_order_index fl = Inr fr" and sr: "radio_order_index sl = Inr sr"
    and rc: "emap (radio_change_entry fr sr) (sorted_inter (map fst fr) (map fst sr)) = Inr rc"
    and ma: "dropdown_missing_options fl = Inr ma" and mb: "dropdown_missing_options sl = Inr mb"
    and d: "d = \<lparr> containers_added = ca, containers_removed = cr,
                   settings_added = sorted_minus (map fst ss) (map fst fs),
                   settings_removed = sorted_minus (map fst fs) (map fst ss),
                   labelOrTypeChanged = concat ch, fieldIdDrift = concat fd,
                   dropdownsMissingOptionsA = ma, dropdownsMissingOptionsB = mb,
                   radioOrderingChangedWithoutLabelChange = concat rc \<rparr>"
    by (rule compare_schemasE)
  have "\<exists>r. label_or_type_entry ss fs k = Inr r"
    if "k \<in> set (sorted_inter (map fst fs) (map fst ss))" for k
  proof -
    from emap_at [OF ch that] obtain r where "label_or_type_entry fs ss k = Inr r" by blast
    then show ?thesis
      unfolding label_or_type_entry_def by (elim ebindE) simp
  qed
  then obtain ch' where ch':
    "emap (label_or_type_entry ss fs) (sorted_inter (map fst ss) (map fst fs)) = Inr ch'"
    using emap_succeeds [of "sorted_inter (map fst ss) (map fst fs)" "label_or_type_entry ss fs"]
    by (auto simp: sorted_inter_commute [of "map fst ss"])
  have "\<exists>r. drift_entry sm fm k = Inr r"
    if "k \<in> set (sorted_inter (map fst fm) (map fst sm))" for k
  proof -
    from emap_at [OF fd that] obtain r where "drift_entry fm sm k = Inr r" by blast
    then show ?thesis
      unfolding drift_entry_def by (elim ebindE) simp
  qed
  then obtain fd' where fd':
    "emap (drift_entry sm fm) (sorted_inter (map fst sm) (map fst fm)) = Inr fd'"
    using emap_succeeds [of "sorted_inter (map fst sm) (map fst fm)" "drift_entry sm fm"]
    by (auto simp: sorted_inter_commute [of "map fst sm"])
  have "\<exists>r. radio_change_entry sr fr k = Inr r"
    if "k \<in> set (sorted_inter (map fst fr) (map fst sr))" for k
  proof -
    from emap_at [OF rc that] obtain r where "radio_change_entry fr sr k = Inr r" by blast
    then show ?thesis
      unfolding radio_change_entry_def by (elim ebindE) simp
  qed
  then obtain rc' where rc':
    "emap (radio_change_entry sr fr) (sorted_inter (map fst sr) (map fst fr)) = Inr rc'"
    using emap_succeeds [of "sorted_inter (map fst sr) (map fst fr)" "radio_change_entry sr fr"]
    by (auto simp: sorted_inter_commute [of "map fst sr"])
  have "compare_schemas B A =
          Inr \<lparr> containers_added = cr, containers_removed = ca,
                settings_added = sorted_minus (map fst fs) (map fst ss),
                settings_removed = sorted_minus (map fst ss) (map fst fs),
                labelOrTypeChanged = concat ch', fieldIdDrift = concat fd',
                dropdownsMissingOptionsA = mb, dropdownsMissingOptionsB = ma,
                radioOrderingChangedWithoutLabelChange = concat rc' \<rparr>"
    unfolding compare_schemas_def
    by (simp add: fc sc fl sl fs ss ca cr ch' fm sm fd' fr sr rc' ma mb)
  with d show ?thesis by simp
qed

theorem compare_schemas_added_removed_symmetric_witness:
  "compare_schemas snapshot_a snapshot_b = Inr diff_a_b
   \<and> map_sum id containers_removed (compare_schemas snapshot_b snapshot_a) = Inr (containers_added diff_a_b)
   \<and> map_sum id settings_removed (compare_schemas snapshot_b snapshot_a) = Inr (settings_added diff_a_b)
   \<and> map_sum id containers_added (compare_schemas snapshot_b snapshot_a) = Inr (containers_removed diff_a_b)
   \<and> map_sum id settings_added (compare_schemas snapshot_b snapshot_a) = Inr (settings_removed diff_a_b)"
proof -
  have ab: "compare_schemas snapshot_a snapshot_b = Inr diff_a_b" by code_simp
  from compare_schemas_added_removed_symmetric [OF ab] ab show ?thesis by auto
qed

text \<open>
  C8.  For a radio-group signature present in both snapshots, the entries of
  \<^verbatim>\<open>radioOrderingChangedWithoutLabelChange\<close> for that signature are: exactly one,
  carrying both orders, when the two label sequences differ and hold the same labels the
  same number of times; none otherwise, in particular none when the orders are identical.
\<close>

theorem radio_reordering_recorded:
  assumes cmp: "compare_schemas A B = Inr d"
    and la: "schema_settings A = Inr la" and lb: "schema_settings B = Inr lb"
    and ra: "radio_order_index la = Inr ra" and rb: "radio_order_index lb = Inr rb"
    and xs: "map_of ra sg = Some xs" and ys: "map_of rb sg = Some ys"
  shows "filter (\<lambda>e. get e ''signature'' = Inr (JStr sg)) (radioOrderingChangedWithoutLabelChange d)
         = (if xs \<noteq> ys \<and> mset xs = mset ys
            then [JObj [(''signature'', JStr sg), (''firstOrder'', JArr (map JStr xs)),
                        (''secondOrder'', JArr (map JStr ys))]]
            else [])"
proof -
  from cmp obtain fl sl fr sr rc where
    fl: "schema_settings A = Inr fl" and sl: "schema_settings B = Inr sl"
    and fr: "radio_order_index fl = Inr fr" and sr: "radio_order_index sl = Inr sr"
    and rc: "emap (radio_change_entry fr sr) (sorted_inter (map fst fr) (map fst sr)) = Inr rc"
    and d: "radioOrderingChangedWithoutLabelChange d = concat rc"
    by (rule compare_schemasE) simp
  from fl la sl lb have "fl = la" "sl = lb" by simp_all
  with fr sr ra rb have [simp]: "fr = ra" "sr = rb" by simp_all
  let ?P = "\<lambda>e. get e ''signature'' = Inr (JStr sg)"
  let ?entry = "JObj [(''signature'', JStr sg), (''firstOrder'', JArr (map JStr xs)),
                      (''secondOrder'', JArr (map JStr ys))]"
  let ?r = "if xs = ys then [] else if sort xs = sort ys then [?entry] else []"
  have mem: "sg \<in> set (sorted_inter (map fst ra) (map fst rb))"
    using map_of_in_keys [OF xs] map_of_in_keys [OF ys] by (simp add: set_sorted_inter)
  have here: "radio_change_entry ra rb sg = Inr ?r"
    using xs ys by (simp add: radio_change_entry_def dict_item_def)
  have other: "\<not> ?P e"
    if "k' \<noteq> sg" and "radio_change_entry ra rb k' = Inr r'" and "e \<in> set r'" for k' r' e
    using that unfolding radio_change_entry_def
    by (elim ebindE) (auto simp: get_of_dict split: if_splits)
  have "filter ?P (concat rc) = filter ?P ?r"
    using emap_concat_filter [where P = ?P, OF rc [simplified] distinct_sorted_inter mem here] other
    by blast
  then show ?thesis
    by (simp add: d get_of_dict sort_eq_iff_mset)
qed

theorem radio_reordering_recorded_witness:
  "compare_schemas snapshot_a snapshot_b = Inr diff_a_b
   \<and> filter (\<lambda>e. get e ''signature'' = Inr (JStr ''c1||Mode|radio_group''))
        (radioOrderingChangedWithoutLabelChange diff_a_b)
      = [JObj [(''signature'', JStr ''c1||Mode|radio_group''),
               (''firstOrder'', JArr [JStr ''A'', JStr ''B'']),
               (''secondOrder'', JArr [JStr ''B'', JStr ''A''])]]
   \<and> compare_schemas snapshot_b snapshot_b = Inr diff_empty
   \<and> filter (\<lambda>e. get e ''signature'' = Inr (JStr ''c1||Mode|radio_group''))
        (radioOrderingChangedWithoutLabelChange diff_empty) = []"
proof -
  let ?la = "projr (schema_settings snapshot_a)" and ?lb = "projr (schema_settings snapshot_b)"
  let ?ra = "[(''c1||Mode|radio_group'', [''A'', ''B''])]"
  let ?rb = "[(''c1||Mode|radio_group'', [''B'', ''A''])]"
  have ab: "compare_schemas snapshot_a snapshot_b = Inr diff_a_b" by code_simp
  have bb: "compare_schemas snapshot_b snapshot_b = Inr diff_empty" by code_simp
  have la: "schema_settings snapshot_a = Inr ?la" by code_simp
  have lb: "schema_settings snapshot_b = Inr ?lb" by code_simp
  have ra: "radio_order_index ?la = Inr ?ra" by code_simp
  have rb: "radio_order_index ?lb = Inr ?rb" by code_simp
  have xs: "map_of ?ra ''c1||Mode|radio_group'' = Some [''A'', ''B'']" by simp
  have ys: "map_of ?rb ''c1||Mode|radio_group'' = Some [''B'', ''A'']" by simp
  show ?thesis
    using ab bb radio_reordering_recorded [OF ab la lb ra rb xs ys]
      radio_reordering_recorded [OF bb lb lb rb rb ys ys]
    by simp
qed

text \<open>
  Two label sequences with the same set of labels that are no rearrangement of one
  another: nothing is recorded.
\<close>

theorem radio_reordering_recorded_counterexample:
  "radio_order_index (projr (schema_settings radio_dup_a))
     = Inr [(''c1||Mode|radio_group'', [''A'', ''A'', ''B''])]
   \<and> radio_order_index (projr (schema_settings radio_dup_b))
     = Inr [(''c1||Mode|radio_group'', [''A'', ''B'', ''B''])]
   \<and> set [''A'', ''A'', ''B''] = set [''A'', ''B'', ''B'']
   \<and> [''A'', ''A'', ''B''] \<noteq> [''A'', ''B'', ''B'']
   \<and> map_sum id radioOrderingChangedWithoutLabelChange (compare_schemas radio_dup_a radio_dup_b)
     = Inr []"
proof -
  have "radio_order_index (projr (schema_settings radio_dup_a))
     = Inr [(''c1||Mode|radio_group'', [''A'', ''A'', ''B''])]"
    by code_simp
  moreover have "radio_order_index (projr (schema_settings radio_dup_b))
     = Inr [(''c1||Mode|radio_group'', [''A'', ''B'', ''B''])]"
    by code_simp
  moreover have "set [''A'', ''A'', ''B''] = set [''A'', ''B'', ''B'']" by auto
  moreover have "map_sum id radioOrderingChangedWithoutLabelChange
      (compare_schemas radio_dup_a radio_dup_b) = Inr []"
    by code_simp
  ultimately show ?thesis by simp
qed

lemma last_updated_lower: "py_lower ''Last Updated'' = ''last updated''"
  by code_simp

lemma last_updated_has_date:
  assumes "py_contains ''Last Updated'' l"
  shows "py_contains ''date'' (py_lower l)"
proof -
  from assms obtain ps ss where "l = ps @ ''Last Updated'' @ ss"
    by (auto simp: py_contains_iff)
  then have "py_lower l = py_lower ps @ py_lower ''Last Updated'' @ py_lower ss"
    by (simp add: py_lower_def)
  then have "py_lower l = (py_lower ps @ ''last up'') @ ''date'' @ (''d'' @ py_lower ss)"
    by (simp add: last_updated_lower)
  then show ?thesis unfolding py_contains_iff by blast
qed

lemma last_updated_is_timestamp:
  assumes "setting_label s = Inr l" and "py_contains ''Last Updated'' l"
  shows "is_timestamp_field s = Inr True"
  using assms last_updated_has_date [OF assms(2)]
  by (simp add: is_timestamp_field_def Let_def)

lemma signature_map_origin:
  assumes "signature_map ls = Inr m" and "map_of m sg = Some i"
  shows "\<exists>a\<in>set ls. setting_id a = Inr i \<and> is_timestamp_field a = Inr False
           \<and> setting_signature a = Inr sg"
proof -
  from assms(1) obtain es where es: "emap signature_item ls = Inr es" and m: "m = dict_of (concat es)"
    unfolding signature_map_def by (elim ebindE) auto
  from assms(2) m have "(sg, i) \<in> set (concat es)" by (auto dest: dict_of_SomeD)
  from emap_concat_origin [OF es this] obtain a r where
    a: "a \<in> set ls" and r: "signature_item a = Inr r" and mem: "(sg, i) \<in> set r" by blast
  from r mem have "setting_id a = Inr i \<and> is_timestamp_field a = Inr False
      \<and> setting_signature a = Inr sg"
    unfolding signature_item_def by (elim ebindE) (auto split: if_splits elim!: ebindE)
  with a show ?thesis by blast
qed

text \<open>
  C4.  A setting whose label contains ``Last Updated'' is classified as a timestamp field,
  whatever its current value is.  Every entry of \<^verbatim>\<open>fieldIdDrift\<close> is made from a
  setting of the first snapshot and a setting of the second that are both different from
  such a setting, so it never appears there, even when its identifier differs between the
  snapshots.  Independently of that classification, a setting that keeps its identifier
  and whose declared types differ has an entry in \<^verbatim>\<open>labelOrTypeChanged\<close>.
\<close>

theorem timestamp_field_drift_exclusion:
  assumes cmp: "compare_schemas A B = Inr d"
    and la: "schema_settings A = Inr la" and lb: "schema_settings B = Inr lb"
    and ma: "settings_by_id la = Inr ma" and mb: "settings_by_id lb = Inr mb"
  shows "(\<forall>s l. setting_label s = Inr l \<and> py_contains ''Last Updated'' l \<longrightarrow>
            is_timestamp_field s = Inr True \<and>
            (\<forall>e\<in>set (fieldIdDrift d). \<exists>a\<in>set la. \<exists>b\<in>set lb. a \<noteq> s \<and> b \<noteq> s \<and>
               (\<exists>sg i j. setting_signature a = Inr sg \<and> setting_signature b = Inr sg
                  \<and> setting_id a = Inr i \<and> setting_id b = Inr j
                  \<and> e = JObj [(''signature'', JStr sg), (''firstFieldId'', JStr i),
                              (''secondFieldId'', JStr j)])))
       \<and> (\<forall>k a b ta tb. map_of ma k = Some a \<and> map_of mb k = Some b
              \<and> setting_type a = Inr ta \<and> setting_type b = Inr tb \<and> ta \<noteq> tb \<longrightarrow>
            (\<exists>l1 l2. setting_label a = Inr l1 \<and> setting_label b = Inr l2 \<and>
               JObj [(''settingKey'', JStr k),
                     (''first'', JObj [(''label'', JStr l1), (''type'', JStr ta)]),
                     (''second'', JObj [(''label'', JStr l2), (''type'', JStr tb)])]
                 \<in> set (labelOrTypeChanged d)))"
proof -
  from cmp obtain fl sl fs ss ch fm sm fd where
    fl: "schema_settings A = Inr fl" and sl: "schema_settings B = Inr sl"
    and fs: "settings_by_id fl = Inr fs" and ss: "settings_by_id sl = Inr ss"
    and ch: "emap (label_or_type_entry fs ss) (sorted_inter (map fst fs) (map fst ss)) = Inr ch"
    and fm: "signature_map fl = Inr fm" and sm: "signature_map sl = Inr sm"
    and fd: "emap (drift_entry fm sm) (sorted_inter (map fst fm) (map fst sm)) = Inr fd"
    and dl: "labelOrTypeChanged d = concat ch" and dd: "fieldIdDrift d = concat fd"
    by (rule compare_schemasE) simp
  from fl la sl lb have [simp]: "fl = la" "sl = lb" by simp_all
  from fs ss ma mb have [simp]: "fs = ma" "ss = mb" by simp_all
  have drift: "\<exists>a\<in>set la. \<exists>b\<in>set lb. a \<noteq> s \<and> b \<noteq> s \<and>
               (\<exists>sg i j. setting_signature a = Inr sg \<and> setting_signature b = Inr sg
                  \<and> setting_id a = Inr i \<and> setting_id b = Inr j
                  \<and> e = JObj [(''signature'', JStr sg), (''firstFieldId'', JStr i),
                              (''secondFieldId'', JStr j)])"
    if ts: "is_timestamp_field s = Inr True" and e: "e \<in> set (fieldIdDrift d)" for s e
  proof -
    from e dd have "e \<in> set (concat fd)" by simp
    from emap_concat_origin [OF fd this] obtain sg r where
      r: "drift_entry fm sm sg = Inr r" and er: "e \<in> set r" by blast
    from r er obtain i j where i: "map_of fm sg = Some i" and j: "map_of sm sg = Some j"
      and e_eq: "e = JObj [(''signature'', JStr sg), (''firstFieldId'', JStr i),
                           (''secondFieldId'', JStr j)]"
      unfolding drift_entry_def
      by (elim ebindE) (auto simp: dict_item_Inr split: if_splits)
    from signature_map_origin [OF fm i] obtain a where
      a: "a \<in> set la" "setting_id a = Inr i" "is_timestamp_field a = Inr False"
        "setting_signature a = Inr sg" by auto
    from signature_map_origin [OF sm j] obtain b where
      b: "b \<in> set lb" "setting_id b = Inr j" "is_timestamp_field b = Inr False"
        "setting_signature b = Inr sg" by auto
    from a b ts have "a \<noteq> s" "b \<noteq> s" by auto
    with a b e_eq show ?thesis by blast
  qed
  have changed: "\<exists>l1 l2. setting_label a = Inr l1 \<and> setting_label b = Inr l2 \<and>
               JObj [(''settingKey'', JStr k),
                     (''first'', JObj [(''label'', JStr l1), (''type'', JStr ta)]),
                     (''second'', JObj [(''label'', JStr l2), (''type'', JStr tb)])]
                 \<in> set (labelOrTypeChanged d)"
    if a: "map_of ma k = Some a" and b: "map_of mb k = Some b"
      and ta: "setting_type a = Inr ta" and tb: "setting_type b = Inr tb" and ne: "ta \<noteq> tb"
    for k a b ta tb
  proof -
    have "k \<in> set (sorted_inter (map fst ma) (map fst mb))"
      using map_of_in_keys [OF a] map_of_in_keys [OF b] by (simp add: set_sorted_inter)
    from emap_at [OF ch [simplified] this] obtain r where
      r: "label_or_type_entry ma mb k = Inr r" and rin: "r \<in> set ch" by blast
    from r a b ta tb ne obtain l1 l2 where l: "setting_label a = Inr l1" "setting_label b = Inr l2"
      and r_eq: "r = [JObj [(''settingKey'', JStr k),
                     (''first'', JObj [(''label'', JStr l1), (''type'', JStr ta)]),
                     (''second'', JObj [(''label'', JStr l2), (''type'', JStr tb)])]]"
      unfolding label_or_type_entry_def
      by (elim ebindE) (auto simp: dict_item_Inr)
    from rin r_eq have "JObj [(''settingKey'', JStr k),
                     (''first'', JObj [(''label'', JStr l1), (''type'', JStr ta)]),
                     (''second'', JObj [(''label'', JStr l2), (''type'', JStr tb)])]
                 \<in> set (concat ch)"
      by force
    with l dl show ?thesis by simp
  qed
  show ?thesis
    using drift changed last_updated_is_timestamp by blast
qed

theorem timestamp_field_drift_exclusion_witness:
  "compare_schemas snapshot_a snapshot_b = Inr diff_a_b
   \<and> setting_label clock_a = Inr ''Last Updated''
   \<and> get clock_a ''currentValue'' = Inr (JStr ''2024/01/01 10:00'')
   \<and> setting_id clock_a = Inr ''clock'' \<and> setting_id clock_b = Inr ''clock2''
   \<and> setting_signature clock_a = setting_signature clock_b
   \<and> is_timestamp_field clock_a = Inr True
   \<and> fieldIdDrift diff_a_b =
        [JObj [(''signature'', JStr ''c1||Name|textbox''), (''firstFieldId'', JStr ''name''),
               (''secondFieldId'', JStr ''name2'')]]
   \<and> setting_label stamp_a = Inr ''Last Updated''
   \<and> JObj [(''settingKey'', JStr ''stamp''),
            (''first'', JObj [(''label'', JStr ''Last Updated''), (''type'', JStr ''text_display'')]),
            (''second'', JObj [(''label'', JStr ''Last Updated''), (''type'', JStr ''textbox'')])]
        \<in> set (labelOrTypeChanged diff_a_b)"
proof -
  let ?la = "projr (schema_settings snapshot_a)" and ?lb = "projr (schema_settings snapshot_b)"
  let ?ma = "projr (settings_by_id ?la)" and ?mb = "projr (settings_by_id ?lb)"
  have ab: "compare_schemas snapshot_a snapshot_b = Inr diff_a_b" by code_simp
  have la: "schema_settings snapshot_a = Inr ?la" by code_simp
  have lb: "schema_settings snapshot_b = Inr ?lb" by code_simp
  have ma: "settings_by_id ?la = Inr ?ma" by code_simp
  have mb: "settings_by_id ?lb = Inr ?mb" by code_simp
  have lab: "setting_label clock_a = Inr ''Last Updated''" by code_simp
  have lab2: "setting_label stamp_a = Inr ''Last Updated''" "setting_label stamp_b = Inr ''Last Updated''"
    by code_simp+
  have sub: "py_contains ''Last Updated'' ''Last Updated''" by code_simp
  have ka: "map_of ?ma ''stamp'' = Some stamp_a" by code_simp
  have kb: "map_of ?mb ''stamp'' = Some stamp_b" by code_simp
  have ta: "setting_type stamp_a = Inr ''text_display''" by code_simp
  have tb: "setting_type stamp_b = Inr ''textbox''" by code_simp
  have ne: "''text_display'' \<noteq> ''textbox''" by simp
  have misc: "get clock_a ''currentValue'' = Inr (JStr ''2024/01/01 10:00'')"
    "setting_id clock_a = Inr ''clock''" "setting_id clock_b = Inr ''clock2''"
    "setting_signature clock_a = setting_signature clock_b"
    by code_simp+
  note T = timestamp_field_drift_exclusion [OF ab la lb ma mb]
  from T lab sub have ts: "is_timestamp_field clock_a = Inr True" by blast
  from T ka kb ta tb ne obtain l1 l2 where "setting_label stamp_a = Inr l1"
    and "setting_label stamp_b = Inr l2"
    and "JObj [(''settingKey'', JStr ''stamp''),
            (''first'', JObj [(''label'', JStr l1), (''type'', JStr ''text_display'')]),
            (''second'', JObj [(''label'', JStr l2), (''type'', JStr ''textbox'')])]
        \<in> set (labelOrTypeChanged diff_a_b)"
    by blast
  with lab2 have entry: "JObj [(''settingKey'', JStr ''stamp''),
            (''first'', JObj [(''label'', JStr ''Last Updated''), (''type'', JStr ''text_display'')]),
            (''second'', JObj [(''label'', JStr ''Last Updated''), (''type'', JStr ''textbox'')])]
        \<in> set (labelOrTypeChanged diff_a_b)"
    by simp
  have drift: "fieldIdDrift diff_a_b =
        [JObj [(''signature'', JStr ''c1||Name|textbox''), (''firstFieldId'', JStr ''name''),
               (''secondFieldId'', JStr ''name2'')]]"
    by (simp add: diff_a_b_def)
  from ab lab misc ts drift lab2(1) entry show ?thesis by blast
qed

section \<open>Properties of the setting application engine\<close>




lemma write_phase_not_writable:
  assumes "ty \<in> {JStr ''button_dialog'', JStr ''text_display'', JStr ''table''}"
  shows "write_phase B s scope loc setting ty desired = (Returned (True, False, ''not-writable''), s)"
proof -
  from assms consider "ty = JStr ''button_dialog''" | "ty = JStr ''text_display''"
    | "ty = JStr ''table''" by blast
  then show ?thesis
    by cases (simp_all add: write_phase_def)
qed

lemma apply_one_outcome:
  assumes a: "apply_setting B (session r) scope setting desired = Inr ((ok, changed, note), s')"
    and pop: "pop_item (records r ! i) ''_desired'' = Inr (desired, setting)"
    and sk: "get setting ''settingKey'' = Inr sk"
    and ty: "get setting ''type'' = Inr ty"
  shows "apply_one B scope container_key (r, n) i
           = Inr (r \<lparr> session := s', records := (records r)[i := setting],
                      outcomes := outcomes r @
                        [JObj [(''settingKey'', sk), (''containerKey'', container_key),
                               (''type'', ty), (''desired'' , desired),
                               (''status'', JStr (if ok then (if changed then ''applied'' else ''skipped'')
                                                  else ''failed'')),
                               (''detail'', JStr note)]] \<rparr>,
                  if ok \<and> changed then n + 1 else n)"
  by (simp add: apply_one_def a pop sk ty Let_def)

text \<open>
  C1.  For a setting of type \<^verbatim>\<open>button_dialog\<close>, \<^verbatim>\<open>text_display\<close> or
  \<^verbatim>\<open>table\<close> whose locator resolves, \<^verbatim>\<open>apply_setting\<close> returns success with
  \<^verbatim>\<open>changed\<close> false and the note \<^verbatim>\<open>not-writable\<close>, and leaves the browser
  session as it was: no acting call is made.  The loop body of \<^verbatim>\<open>main\<close> turns a
  success without change into the status \<^verbatim>\<open>skipped\<close>, so the Outcome has status
  \<^verbatim>\<open>skipped\<close> and detail \<^verbatim>\<open>not-writable\<close>, and the count of changed settings
  stays the same.
\<close>

theorem not_writable_setting_is_skipped:
  assumes ty: "get setting ''type'' = Inr ty"
    and nw: "ty \<in> {JStr ''button_dialog'', JStr ''text_display'', JStr ''table''}"
    and res: "resolve_field_locator B (world (session r)) scope setting = Inr (Some loc, used)"
    and pop: "pop_item (records r ! i) ''_desired'' = Inr (desired, setting)"
    and sk: "get setting ''settingKey'' = Inr sk"
  shows "apply_setting B (session r) scope setting desired
           = Inr ((True, False, ''not-writable''), session r)
       \<and> apply_one B scope container_key (r, n) i
           = Inr (r \<lparr> records := (records r)[i := setting],
                      outcomes := outcomes r @
                        [JObj [(''settingKey'', sk), (''containerKey'', container_key),
                               (''type'', ty), (''desired'' , desired),
                               (''status'', JStr ''skipped''), (''detail'', JStr ''not-writable'')]] \<rparr>,
                  n)"
proof -
  have a: "apply_setting B (session r) scope setting desired
           = Inr ((True, False, ''not-writable''), session r)"
    by (simp add: apply_setting_def res ty write_phase_not_writable [OF nw])
  from apply_one_outcome [OF a pop sk ty, of container_key n] a show ?thesis by simp
qed

theorem not_writable_setting_is_skipped_witness:
  "get grid_field ''type'' = Inr (JStr ''table'')
   \<and> resolve_field_locator (frozen_page form_counts ''old'' False)
        (world (session (one_record_run () (with_desired grid_field (JStr ''x''))))) Page grid_field
       = Inr (Some (First (Css Page (JStr ''#grid''))), ''primary'')
   \<and> pop_item (records (one_record_run () (with_desired grid_field (JStr ''x''))) ! 0) ''_desired''
       = Inr (JStr ''x'', grid_field)
   \<and> apply_setting (frozen_page form_counts ''old'' False)
        (session (one_record_run () (with_desired grid_field (JStr ''x'')))) Page grid_field (JStr ''x'')
       = Inr ((True, False, ''not-writable''),
              session (one_record_run () (with_desired grid_field (JStr ''x''))))
   \<and> apply_one (frozen_page form_counts ''old'' False) Page (JStr ''c1'')
        (one_record_run () (with_desired grid_field (JStr ''x'')), 0) 0
       = Inr ((one_record_run () (with_desired grid_field (JStr ''x'')))
                \<lparr> records := (records (one_record_run () (with_desired grid_field (JStr ''x''))))
                                [0 := grid_field],
                  outcomes := outcomes (one_record_run () (with_desired grid_field (JStr ''x''))) @
                    [JObj [(''settingKey'', JStr ''grid''), (''containerKey'', JStr ''c1''),
                           (''type'', JStr ''table''), (''desired'' , JStr ''x''),
                           (''status'', JStr ''skipped''), (''detail'', JStr ''not-writable'')]] \<rparr>,
              0)"
proof -
  let ?B = "frozen_page form_counts ''old'' False"
  let ?r = "one_record_run () (with_desired grid_field (JStr ''x''))"
  have ty: "get grid_field ''type'' = Inr (JStr ''table'')" by code_simp
  have nw: "JStr ''table'' \<in> {JStr ''button_dialog'', JStr ''text_display'', JStr ''table''}"
    by simp
  have res: "resolve_field_locator ?B (world (session ?r)) Page grid_field
       = Inr (Some (First (Css Page (JStr ''#grid''))), ''primary'')" by code_simp
  have pop: "pop_item (records ?r ! 0) ''_desired'' = Inr (JStr ''x'', grid_field)" by code_simp
  have sk: "get grid_field ''settingKey'' = Inr (JStr ''grid'')" by code_simp
  from not_writable_setting_is_skipped [OF ty nw res pop sk, of "JStr ''c1''" 0] ty res pop
  show ?thesis by simp
qed

text \<open>
  A run over the form with a desired value for the table: the one Outcome has status
  \<^verbatim>\<open>skipped\<close>, not \<^verbatim>\<open>applied\<close>.
\<close>

theorem not_writable_setting_is_skipped_counterexample:
  "map_sum id outcomes
     (main (frozen_page form_counts ''old'' False) () form_schema (JObj [(''grid'', JStr ''x'')]))
     = Inr [JObj [(''settingKey'', JStr ''grid''), (''containerKey'', JStr ''c1''),
                  (''type'', JStr ''table''), (''desired'', JStr ''x''),
                  (''status'', JStr ''skipped''), (''detail'', JStr ''not-writable'')]]
   \<and> JStr ''skipped'' \<noteq> JStr ''applied''"
  by code_simp

subsection \<open>Counting the changes of a container\<close>

lemma count_status_append:
  "count_status s (xs @ ys) = count_status s xs + count_status s ys"
  by (simp add: count_status_def)

lemma count_status_outcome:
  "count_status ''applied''
     [JObj [(''settingKey'', sk), (''containerKey'', ck), (''type'', ty), (''desired'', d),
            (''status'', JStr status), (''detail'', note)]]
     = (if status = ''applied'' then 1 else 0)"
  by (simp add: count_status_def subscript_def)

lemma apply_one_count:
  assumes "apply_one B scope ck st i = Inr st'"
  shows "\<exists>out. outcomes (fst st') = outcomes (fst st) @ [out]
           \<and> snd st' = snd st + count_status ''applied'' [out]
           \<and> saved_containers (fst st') = saved_containers (fst st)"
proof -
  from assms obtain popped res sk ty where
    st': "st' = ((fst st)\<lparr> session := snd res,
                             records := (records (fst st))[i := snd popped],
                             outcomes := outcomes (fst st) @
                               [JObj [(''settingKey'', sk), (''containerKey'', ck),
                                      (''type'', ty), (''desired'', fst popped),
                                      (''status'', JStr (if fst (fst res) then (if fst (snd (fst res)) then ''applied'' else ''skipped'') else ''failed'')),
                                      (''detail'', JStr (snd (snd (fst res))))]] \<rparr>,
                  if fst (fst res) \<and> fst (snd (fst res)) then snd st + 1 else snd st)"
    unfolding apply_one_def Let_def by (elim ebindE) auto
  let ?status = "if fst (fst res) then (if fst (snd (fst res)) then ''applied'' else ''skipped'') else ''failed''"
  let ?out = "JObj [(''settingKey'', sk), (''containerKey'', ck),
                                      (''type'', ty), (''desired'', fst popped),
                                      (''status'', JStr ?status),
                                      (''detail'', JStr (snd (snd (fst res))))]"
  have "count_status ''applied'' [?out] = (if ?status = ''applied'' then 1 else 0)"
    by (rule count_status_outcome)
  also have "\<dots> = (if fst (fst res) \<and> fst (snd (fst res)) then 1 else 0)"
    by simp
  finally have c: "count_status ''applied'' [?out]
      = (if fst (fst res) \<and> fst (snd (fst res)) then 1 else 0)" .
  have "outcomes (fst st') = outcomes (fst st) @ [?out]"
    and "saved_containers (fst st') = saved_containers (fst st)"
    and "snd st' = snd st + (if fst (fst res) \<and> fst (snd (fst res)) then 1 else 0)"
    by (simp_all add: st')
  with c have "outcomes (fst st') = outcomes (fst st) @ [?out]
           \<and> snd st' = snd st + count_status ''applied'' [?out]
           \<and> saved_containers (fst st') = saved_containers (fst st)"
    by (simp only:)
  then show ?thesis by (rule exI)
qed

lemma apply_fold_count:
  assumes "efold (apply_one B scope ck) st idxs = Inr st'"
  shows "\<exists>os. outcomes (fst st') = outcomes (fst st) @ os
           \<and> length os = length idxs
           \<and> snd st' = snd st + count_status ''applied'' os
           \<and> saved_containers (fst st') = saved_containers (fst st)"
  using assms
proof (induction idxs arbitrary: st)
  case Nil
  then show ?case by (simp add: count_status_def)
next
  case (Cons i idxs)
  from Cons.prems obtain st1 where one: "apply_one B scope ck st i = Inr st1"
    and rest: "efold (apply_one B scope ck) st1 idxs = Inr st'"
    by (auto simp: ebind_eq_Inr)
  from apply_one_count [OF one] obtain out where
    o1: "outcomes (fst st1) = outcomes (fst st) @ [out]"
    and c1: "snd st1 = snd st + count_status ''applied'' [out]"
    and s1: "saved_containers (fst st1) = saved_containers (fst st)" by blast
  from Cons.IH [OF rest] obtain os where
    o2: "outcomes (fst st') = outcomes (fst st1) @ os"
    and l2: "length os = length idxs"
    and c2: "snd st' = snd st1 + count_status ''applied'' os"
    and s2: "saved_containers (fst st') = saved_containers (fst st1)" by blast
  have "outcomes (fst st') = outcomes (fst st) @ (out # os)" by (simp add: o1 o2)
  moreover have "length (out # os) = length (i # idxs)" by (simp add: l2)
  moreover have "snd st' = snd st + count_status ''applied'' (out # os)"
    using count_status_append [of "''applied''" "[out]" os] by (simp add: c1 c2)
  moreover have "saved_containers (fst st') = saved_containers (fst st)" by (simp add: s1 s2)
  ultimately show ?case by blast
qed


lemma container_without_change:
  assumes found: "truthy (pydict_get_or_none containers (fst grp))"
    and opened: "open_container B (session r0) (pydict_get_or_none containers (fst grp)) = Inr opened"
    and fold: "efold (apply_one B (fst opened) (fst grp)) (r0\<lparr> session := snd opened \<rparr>, 0) (snd grp)
                 = Inr st"
    and closed: "close_modal B (session (fst st)) (fst opened)
                   (pydict_get_or_none containers (fst grp)) = Inr s''"
  shows "(\<exists>os. outcomes (fst st) = outcomes r0 @ os \<and> length os = length (snd grp)
               \<and> snd st = count_status ''applied'' os)
       \<and> saved_containers (fst st) = saved_containers r0
       \<and> (snd st = 0 \<longrightarrow>
             apply_container B containers r0 grp = Inr ((fst st)\<lparr> session := s'' \<rparr>))"
proof -
  from apply_fold_count [OF fold] obtain os where
    os: "outcomes (fst st) = outcomes r0 @ os" "length os = length (snd grp)"
        "snd st = count_status ''applied'' os"
    and saved: "saved_containers (fst st) = saved_containers r0"
    by auto
  have "apply_container B containers r0 grp = Inr ((fst st)\<lparr> session := s'' \<rparr>)"
    if zero: "snd st = 0"
  proof -
    have save: "click_save_if_needed B (session (fst st)) (fst opened)
                  (pydict_get_or_none containers (fst grp)) (snd st > 0)
                = Inr (False, session (fst st))"
      by (simp add: click_save_if_needed_def zero)
    show ?thesis
      unfolding apply_container_def Let_def
      by (simp add: found opened fold save closed)
  qed
  with os saved show ?thesis by blast
qed

text \<open>
  C2.  For a setting of a type other than \<^verbatim>\<open>radio_group\<close> and
  \<^verbatim>\<open>dropdown_aria\<close>, when the write phase has written and the verification read does
  not match, \<^verbatim>\<open>apply_setting\<close> returns failure with \<^verbatim>\<open>changed\<close> true and the
  note \<^verbatim>\<open>verification-failed\<close>, and the Outcome has status \<^verbatim>\<open>failed\<close> with
  that detail.  The loop body of \<^verbatim>\<open>main\<close> counts a change only under success, so
  the count of changed settings stays the same.  For every container that is found and
  opened, the count with which the loop over its settings ends is the number of its
  Outcomes with status \<^verbatim>\<open>applied\<close>, and the loop leaves
  \<^verbatim>\<open>saved_containers\<close> alone; when that count is zero, the body of the loop over
  the containers goes from the end of the loop over the settings straight to
  \<^verbatim>\<open>close_modal\<close>: \<^verbatim>\<open>click_save_if_needed\<close> makes no browser call, and the
  container is not recorded as saved.
\<close>

theorem unverified_write_is_not_counted:
  assumes ty: "get setting ''type'' = Inr ty"
    and nt: "ty \<notin> {JStr ''radio_group'', JStr ''dropdown_aria''}"
    and res: "resolve_field_locator B (world (session r)) scope setting = Inr (Some loc, used)"
    and wr: "write_phase B (session r) scope loc setting ty desired = (Written True, s')"
    and vf: "verify_locator_value B (world s') loc setting desired = Inr False"
    and pop: "pop_item (records r ! i) ''_desired'' = Inr (desired, setting)"
    and sk: "get setting ''settingKey'' = Inr sk"
  shows "apply_setting B (session r) scope setting desired
           = Inr ((False, True, ''verification-failed''), s')
       \<and> apply_one B scope container_key (r, n) i
           = Inr (r \<lparr> session := s', records := (records r)[i := setting],
                      outcomes := outcomes r @
                        [JObj [(''settingKey'', sk), (''containerKey'', container_key),
                               (''type'', ty), (''desired'' , desired),
                               (''status'', JStr ''failed''),
                               (''detail'', JStr ''verification-failed'')]] \<rparr>,
                  n)
       \<and> click_save_if_needed B s' scope container (0 < (0::nat)) = Inr (False, s')
       \<and> (\<forall>containers r0 grp opened st s''.
              truthy (pydict_get_or_none containers (fst grp))
            \<and> open_container B (session r0) (pydict_get_or_none containers (fst grp)) = Inr opened
            \<and> efold (apply_one B (fst opened) (fst grp)) (r0\<lparr> session := snd opened \<rparr>, 0) (snd grp)
                = Inr st
            \<and> close_modal B (session (fst st)) (fst opened)
                  (pydict_get_or_none containers (fst grp)) = Inr s''
            \<longrightarrow>
              (\<exists>os. outcomes (fst st) = outcomes r0 @ os \<and> length os = length (snd grp)
                    \<and> snd st = count_status ''applied'' os)
            \<and> saved_containers (fst st) = saved_containers r0
            \<and> (snd st = 0 \<longrightarrow>
                  apply_container B containers r0 grp = Inr ((fst st)\<lparr> session := s'' \<rparr>)))"
proof -
  have a: "apply_setting B (session r) scope setting desired
           = Inr ((False, True, ''verification-failed''), s')"
    using nt by (simp add: apply_setting_def res ty wr vf)
  from apply_one_outcome [OF a pop sk ty, of container_key n]
  have b: "apply_one B scope container_key (r, n) i
           = Inr (r \<lparr> session := s', records := (records r)[i := setting],
                      outcomes := outcomes r @
                        [JObj [(''settingKey'', sk), (''containerKey'', container_key),
                               (''type'', ty), (''desired'' , desired),
                               (''status'', JStr ''failed''),
                               (''detail'', JStr ''verification-failed'')]] \<rparr>,
                  n)"
    by simp
  have c: "click_save_if_needed B s' scope container (0 < (0::nat)) = Inr (False, s')"
    by (simp add: click_save_if_needed_def)
  have d: "(\<exists>os. outcomes (fst st) = outcomes r0 @ os \<and> length os = length (snd grp)
                    \<and> snd st = count_status ''applied'' os)
            \<and> saved_containers (fst st) = saved_containers r0
            \<and> (snd st = 0 \<longrightarrow>
                  apply_container B containers r0 grp = Inr ((fst st)\<lparr> session := s'' \<rparr>))"
    if "truthy (pydict_get_or_none containers (fst grp))
            \<and> open_container B (session r0) (pydict_get_or_none containers (fst grp)) = Inr opened
            \<and> efold (apply_one B (fst opened) (fst grp)) (r0\<lparr> session := snd opened \<rparr>, 0) (snd grp)
                = Inr st
            \<and> close_modal B (session (fst st)) (fst opened)
                  (pydict_get_or_none containers (fst grp)) = Inr s''"
    for containers r0 grp opened st s''
  proof -
    from that have found: "truthy (pydict_get_or_none containers (fst grp))"
      and opened: "open_container B (session r0) (pydict_get_or_none containers (fst grp)) = Inr opened"
      and fold: "efold (apply_one B (fst opened) (fst grp)) (r0\<lparr> session := snd opened \<rparr>, 0) (snd grp)
                = Inr st"
      and closed: "close_modal B (session (fst st)) (fst opened)
                  (pydict_get_or_none containers (fst grp)) = Inr s''"
      by blast+
    from container_without_change [OF found opened fold closed] show ?thesis .
  qed
  from a b c d show ?thesis by blast
qed

theorem unverified_write_is_not_counted_witness:
  "get name_field ''type'' = Inr (JStr ''textbox'')
   \<and> write_phase (frozen_page form_counts ''old'' False)
        (session (one_record_run () (with_desired name_field (JStr ''new'')))) Page
        (First (Css Page (JStr ''#name''))) name_field (JStr ''textbox'') (JStr ''new'')
       = (Written True, \<lparr> world = (), trace = [Fill (First (Css Page (JStr ''#name''))) ''new''] \<rparr>)
   \<and> verify_locator_value (frozen_page form_counts ''old'' False) ()
        (First (Css Page (JStr ''#name''))) name_field (JStr ''new'') = Inr False
   \<and> apply_setting (frozen_page form_counts ''old'' False)
        (session (one_record_run () (with_desired name_field (JStr ''new'')))) Page name_field
        (JStr ''new'')
       = Inr ((False, True, ''verification-failed''),
              \<lparr> world = (), trace = [Fill (First (Css Page (JStr ''#name''))) ''new''] \<rparr>)
   \<and> apply_one (frozen_page form_counts ''old'' False) Page (JStr ''c1'')
        (one_record_run () (with_desired name_field (JStr ''new'')), 0) 0
       = Inr ((one_record_run () (with_desired name_field (JStr ''new'')))
                \<lparr> session := \<lparr> world = (), trace = [Fill (First (Css Page (JStr ''#name''))) ''new''] \<rparr>,
                  records := (records (one_record_run () (with_desired name_field (JStr ''new''))))
                                [0 := name_field],
                  outcomes := outcomes (one_record_run () (with_desired name_field (JStr ''new''))) @
                    [JObj [(''settingKey'', JStr ''name''), (''containerKey'', JStr ''c1''),
                           (''type'', JStr ''textbox''), (''desired'' , JStr ''new''),
                           (''status'', JStr ''failed''),
                           (''detail'', JStr ''verification-failed'')]] \<rparr>,
              0)
   \<and> containers_by_key form_schema = Inr form_containers
   \<and> truthy (pydict_get_or_none form_containers (JStr ''c1''))
   \<and> open_container (frozen_page form_counts ''old'' False)
        (session (one_record_run () (with_desired name_field (JStr ''new''))))
        (pydict_get_or_none form_containers (JStr ''c1''))
       = Inr (Page, \<lparr> world = (), trace = [] \<rparr>)
   \<and> efold (apply_one (frozen_page form_counts ''old'' False) Page (JStr ''c1''))
        ((one_record_run () (with_desired name_field (JStr ''new'')))
           \<lparr> session := \<lparr> world = (), trace = [] \<rparr> \<rparr>, 0) [0]
       = Inr (unverified_run_end, 0)
   \<and> close_modal (frozen_page form_counts ''old'' False) (session unverified_run_end) Page
        (pydict_get_or_none form_containers (JStr ''c1''))
       = Inr (session unverified_run_end)
   \<and> count_status ''applied'' (outcomes unverified_run_end) = 0
   \<and> saved_containers unverified_run_end = []
   \<and> apply_container (frozen_page form_counts ''old'' False) form_containers
        (one_record_run () (with_desired name_field (JStr ''new''))) (JStr ''c1'', [0])
       = Inr unverified_run_end"
proof -
  let ?B = "frozen_page form_counts ''old'' False"
  let ?r = "one_record_run () (with_desired name_field (JStr ''new''))"
  let ?loc = "First (Css Page (JStr ''#name''))"
  let ?s' = "\<lparr> world = (), trace = [Fill ?loc ''new''] \<rparr>"
  let ?grp = "(JStr ''c1'', [0::nat])"
  let ?opened = "(Page, \<lparr> world = (), trace = [] :: action list \<rparr>)"
  let ?st = "(unverified_run_end, 0::nat)"
  have ty: "get name_field ''type'' = Inr (JStr ''textbox'')" by code_simp
  have nt: "JStr ''textbox'' \<notin> {JStr ''radio_group'', JStr ''dropdown_aria''}" by simp
  have res: "resolve_field_locator ?B (world (session ?r)) Page name_field
       = Inr (Some ?loc, ''primary'')" by code_simp
  have wr: "write_phase ?B (session ?r) Page ?loc name_field (JStr ''textbox'') (JStr ''new'')
       = (Written True, ?s')" by code_simp
  have vf: "verify_locator_value ?B (world ?s') ?loc name_field (JStr ''new'') = Inr False"
    by code_simp
  have pop: "pop_item (records ?r ! 0) ''_desired'' = Inr (JStr ''new'', name_field)" by code_simp
  have sk: "get name_field ''settingKey'' = Inr (JStr ''name'')" by code_simp
  have cs: "containers_by_key form_schema = Inr form_containers" by code_simp
  have found: "truthy (pydict_get_or_none form_containers (fst ?grp))" by code_simp
  have opened: "open_container ?B (session ?r) (pydict_get_or_none form_containers (fst ?grp))
       = Inr ?opened" by code_simp
  have fold: "efold (apply_one ?B (fst ?opened) (fst ?grp)) (?r\<lparr> session := snd ?opened \<rparr>, 0)
        (snd ?grp) = Inr ?st" by code_simp
  have closed: "close_modal ?B (session (fst ?st)) (fst ?opened)
        (pydict_get_or_none form_containers (fst ?grp)) = Inr (session unverified_run_end)"
    by code_simp
  have none: "count_status ''applied'' (outcomes unverified_run_end) = 0" by code_simp
  have saved: "saved_containers unverified_run_end = []" by code_simp
  note all = unverified_write_is_not_counted [OF ty nt res wr vf pop sk, of "JStr ''c1''" 0]
  note setting = all [THEN conjunct1] all [THEN conjunct2, THEN conjunct1]
  note group = all [THEN conjunct2, THEN conjunct2, THEN conjunct2, rule_format,
      OF conjI [OF found conjI [OF opened conjI [OF fold closed]]]]
  from group have "apply_container ?B form_containers ?r ?grp
       = Inr (unverified_run_end \<lparr> session := session unverified_run_end \<rparr>)"
    by simp
  then have container: "apply_container ?B form_containers ?r ?grp = Inr unverified_run_end"
    by simp
  from found opened fold closed
  have "truthy (pydict_get_or_none form_containers (JStr ''c1''))"
    and "open_container ?B (session ?r) (pydict_get_or_none form_containers (JStr ''c1''))
       = Inr ?opened"
    and "efold (apply_one ?B Page (JStr ''c1'')) (?r\<lparr> session := \<lparr> world = (), trace = [] \<rparr> \<rparr>, 0) [0]
       = Inr (unverified_run_end, 0)"
    and "close_modal ?B (session unverified_run_end) Page
        (pydict_get_or_none form_containers (JStr ''c1'')) = Inr (session unverified_run_end)"
    by simp_all
  moreover from vf have "verify_locator_value ?B () ?loc name_field (JStr ''new'') = Inr False"
    by simp
  ultimately show ?thesis
    using setting ty wr cs none saved container by (intro conjI)
qed

text \<open>
  A run over the form on a page that ignores the text typed into it: the write is made,
  the Outcome is \<^verbatim>\<open>failed\<close> with \<^verbatim>\<open>verification-failed\<close>, and the save button,
  which is there, is never clicked and no container is recorded as saved.  On a page that
  takes the text, the same run clicks the save button and records the container.
\<close>

theorem unverified_write_is_not_counted_counterexample:
  "map_sum id (\<lambda>r. (outcomes r, saved_containers r, trace (session r)))
     (main (frozen_page form_counts ''old'' False) () form_schema (JObj [(''name'', JStr ''new'')]))
     = Inr ([JObj [(''settingKey'', JStr ''name''), (''containerKey'', JStr ''c1''),
                   (''type'', JStr ''textbox''), (''desired'', JStr ''new''),
                   (''status'', JStr ''failed''), (''detail'', JStr ''verification-failed'')]],
            [],
            [Fill (First (Css Page (JStr ''#name''))) ''new''])
   \<and> map_sum id (\<lambda>r. (saved_containers r, trace (session r)))
     (main (text_page form_counts) ''old'' form_schema (JObj [(''name'', JStr ''new'')]))
     = Inr ([JStr ''c1''],
            [Fill (First (Css Page (JStr ''#name''))) ''new'',
             Click (First (Css Page (JStr ''#save'')))])"
  by code_simp

text \<open>
  The group of a container that the schema does not list: one Outcome for every setting
  of the group, in order, and nothing else changes.
\<close>

lemma missing_container_group:
  assumes "pydict_get containers ck = None"
    and "\<forall>i\<in>set idxs. is_dict (records r ! i)"
  shows "\<exists>os. apply_container B containers r (ck, idxs) = Inr (r \<lparr> outcomes := outcomes r @ os \<rparr>)
           \<and> length os = length idxs
           \<and> (\<forall>k<length idxs. \<exists>sk. get (records r ! (idxs ! k)) ''settingKey'' = Inr sk
                 \<and> os ! k = JObj [(''settingKey'', sk), (''containerKey'', ck),
                                  (''status'', JStr ''failed''),
                                  (''reason'', JStr ''missing-container'')])"
proof -
  let ?f = "\<lambda>i. missing_container_outcome ck (records r ! i)"
  let ?out = "\<lambda>sk. JObj [(''settingKey'', sk), (''containerKey'', ck),
                          (''status'', JStr ''failed''), (''reason'', JStr ''missing-container'')]"
  have "\<exists>os. emap ?f idxs = Inr os \<and> length os = length idxs
           \<and> (\<forall>k<length idxs. \<exists>sk. get (records r ! (idxs ! k)) ''settingKey'' = Inr sk
                 \<and> os ! k = ?out sk)"
    using assms(2)
  proof (induction idxs)
    case Nil
    then show ?case by simp
  next
    case (Cons i idxs)
    then obtain os where os: "emap ?f idxs = Inr os" "length os = length idxs"
      and each: "\<forall>k<length idxs. \<exists>sk. get (records r ! (idxs ! k)) ''settingKey'' = Inr sk
                 \<and> os ! k = ?out sk"
      by auto
    from Cons.prems obtain kvs where kvs: "records r ! i = JObj kvs"
      by (cases "records r ! i") (simp_all add: is_dict_def)
    define sk0 where "sk0 = (case map_of kvs ''settingKey'' of Some v \<Rightarrow> v | None \<Rightarrow> JNull)"
    have g: "get (records r ! i) ''settingKey'' = Inr sk0"
      by (simp add: kvs get_of_dict sk0_def)
    then have fi: "?f i = Inr (?out sk0)"
      by (simp add: missing_container_outcome_def)
    have step: "emap ?f (i # idxs) = Inr (?out sk0 # os)"
      unfolding emap.simps fi os(1) by simp
    have "\<exists>sk. get (records r ! ((i # idxs) ! k)) ''settingKey'' = Inr sk
                 \<and> (?out sk0 # os) ! k = ?out sk" if "k < length (i # idxs)" for k
    proof (cases k)
      case 0
      with g show ?thesis by simp
    next
      case (Suc k')
      with that each show ?thesis by simp
    qed
    with step os(2) show ?case by simp
  qed
  then obtain os where os: "emap ?f idxs = Inr os" "length os = length idxs"
     "\<forall>k<length idxs. \<exists>sk. get (records r ! (idxs ! k)) ''settingKey'' = Inr sk
                 \<and> os ! k = ?out sk" by blast
  have "apply_container B containers r (ck, idxs) = Inr (r \<lparr> outcomes := outcomes r @ os \<rparr>)"
    by (simp add: apply_container_def pydict_get_or_none_def assms(1) os(1))
  with os(2,3) show ?thesis by blast
qed

text \<open>
  C6.  A run over the form with a desired value for the checkbox whose container the
  schema does not list: the engine produces one Outcome for it, with status
  \<^verbatim>\<open>failed\<close>, and opens nothing (no acting call is made).  The code
  \<^verbatim>\<open>missing-container\<close> stands under the key \<^verbatim>\<open>reason\<close>; the Outcome has no
  \<^verbatim>\<open>detail\<close> entry, while the Outcome of a setting that was applied has one.
\<close>

theorem missing_container_outcome_has_no_detail:
  "map_sum id (\<lambda>r. (outcomes r, trace (session r)))
     (main (frozen_page form_counts ''old'' False) () form_schema (JObj [(''orphan'', JBool True)]))
     = Inr ([JObj [(''settingKey'', JStr ''orphan''), (''containerKey'', JStr ''c2''),
                   (''status'', JStr ''failed''), (''reason'', JStr ''missing-container'')]], [])
   \<and> py_in ''detail'' (JObj [(''settingKey'', JStr ''orphan''), (''containerKey'', JStr ''c2''),
                  (''status'', JStr ''failed''), (''reason'', JStr ''missing-container'')]) = Inr False
   \<and> map_sum id (\<lambda>r. map (\<lambda>item. py_in ''detail'' item) (outcomes r))
     (main (text_page form_counts) ''old'' form_schema (JObj [(''name'', JStr ''new'')]))
     = Inr [Inr True]"
  by code_simp

subsection \<open>Records, groups and the marker\<close>

lemma py_in_dict [simp]: "py_in k (JObj kvs) = Inr (k \<in> fst ` set kvs)"
  by (simp add: py_in_def)

lemma subscript_dict:
  "subscript (JObj kvs) k = (case map_of kvs k of Some v \<Rightarrow> Inr v | None \<Rightarrow> Inl (KeyError (repr_str k)))"
  by (simp add: subscript_def)

lemma set_item_D:
  assumes "set_item d k v = Inr d'"
  obtains kvs where "d = JObj kvs" and "d' = JObj (AList.update k v kvs)"
  using assms by (cases d) (simp_all add: set_item_def)

lemma pop_item_D:
  assumes "pop_item d k = Inr (v, d')"
  obtains kvs where "d = JObj kvs" and "map_of kvs k = Some v" and "d' = JObj (AList.delete k kvs)"
proof (cases d)
  case (JObj kvs)
  with assms show ?thesis
    by (cases "map_of kvs k") (simp_all add: pop_item_def that)
qed (use assms in \<open>simp_all add: pop_item_def\<close>)

lemma pop_item_removes:
  assumes "pop_item d k = Inr (v, d')"
  shows "py_in k d' = Inr False" and "py_in k d = Inr True"
proof -
  from assms obtain kvs where d: "d = JObj kvs" and v: "map_of kvs k = Some v"
    and d': "d' = JObj (AList.delete k kvs)" by (rule pop_item_D)
  show "py_in k d' = Inr False" by (simp add: d' delete_notin_dom)
  from map_of_in_keys [OF v] show "py_in k d = Inr True" by (simp add: d)
qed

lemma set_item_marks:
  assumes "set_item d ''_desired'' v = Inr d'"
  shows "py_in ''_desired'' d' = Inr True"
    and "subscript d' ''containerKey'' = subscript d ''containerKey''"
proof -
  from assms obtain kvs where d: "d = JObj kvs"
    and d': "d' = JObj (AList.update ''_desired'' v kvs)" by (rule set_item_D)
  show "py_in ''_desired'' d' = Inr True" by (simp add: d' dom_update)
  show "subscript d' ''containerKey'' = subscript d ''containerKey''"
    by (simp add: d d' subscript_dict update_conv')
qed

lemma py_eq_key_norm: "py_eq a b \<longleftrightarrow> key_norm a = key_norm b"
  by (simp add: py_eq_def)

lemma group_append_keys:
  "map fst (group_append G ck i)
     = (if \<exists>k\<in>set (map fst G). py_eq k ck then map fst G else map fst G @ [ck])"
  by (induction G ck i rule: group_append.induct) auto

lemma group_append_member:
  assumes "g \<in> set (group_append G ck i)" and "j \<in> set (snd g)"
  shows "(\<exists>h\<in>set G. fst h = fst g \<and> j \<in> set (snd h)) \<or> (j = i \<and> py_eq (fst g) ck)"
  using assms
proof (induction G ck i rule: group_append.induct)
  case (1 k i)
  then show ?case by (simp add: py_eq_def)
next
  case (2 k' js G k i)
  show ?case
  proof (cases "py_eq k' k")
    case True
    with "2.prems" show ?thesis by auto
  next
    case False
    with "2.prems" have "g = (k', js) \<or> g \<in> set (group_append G k i)" by simp
    then show ?thesis
    proof
      assume "g = (k', js)"
      with "2.prems" show ?thesis by auto
    next
      assume "g \<in> set (group_append G k i)"
      from "2.IH" [OF False this "2.prems"(2)] show ?thesis by auto
    qed
  qed
qed

lemma grouped_ok_iff:
  "grouped_ok rs groups \<longleftrightarrow>
     (\<forall>g\<in>set groups. \<forall>i\<in>set (snd g). i < length rs
         \<and> py_in ''_desired'' (rs ! i) = Inr True
         \<and> (\<exists>ck. subscript (rs ! i) ''containerKey'' = Inr ck \<and> py_eq (fst g) ck))
     \<and> distinct (map (\<lambda>g. key_norm (fst g)) groups)"
proof -
  have c: "(case x of Inl e \<Rightarrow> False | Inr ck \<Rightarrow> P ck) \<longleftrightarrow> (\<exists>ck. x = Inr ck \<and> P ck)"
    for x :: "exn + json" and P
    by (cases x) simp_all
  show ?thesis
    by (simp add: grouped_ok_def list_all_iff c)
qed

lemma grouped_ok_Nil: "grouped_ok rs []"
  by (simp add: grouped_ok_def)

lemma group_append_distinct:
  assumes "distinct (map (\<lambda>g. key_norm (fst g)) G)"
  shows "distinct (map (\<lambda>g. key_norm (fst g)) (group_append G ck i))"
proof -
  have eq: "map (\<lambda>g. key_norm (fst g)) H = map key_norm (map fst H)" for H :: "(json \<times> nat list) list"
    by simp
  show ?thesis
  proof (cases "\<exists>k\<in>set (map fst G). py_eq k ck")
    case True
    then have "map fst (group_append G ck i) = map fst G"
      using group_append_keys [of G ck i] by simp
    with assms show ?thesis
      unfolding eq [of "group_append G ck i"] eq [of G] by simp
  next
    case False
    then have keys: "map fst (group_append G ck i) = map fst G @ [ck]"
      using group_append_keys [of G ck i] by simp
    from False have "key_norm ck \<notin> set (map key_norm (map fst G))"
      by (auto simp: py_eq_def)
    moreover from assms have "distinct (map key_norm (map fst G))"
      unfolding eq .
    ultimately show ?thesis
      unfolding eq [of "group_append G ck i"] keys by simp
  qed
qed

lemma group_step_ok:
  assumes ok: "grouped_ok rs groups"
    and step: "group_step by_key (rs, groups) kv = Inr (rs', groups')"
    and bound: "\<And>k i. pydict_get by_key k = Some i \<Longrightarrow> i < length rs"
  shows "grouped_ok rs' groups' \<and> length rs' = length rs"
proof (cases "pydict_get by_key (JStr (fst kv))")
  case None
  with step ok show ?thesis by (simp add: group_step_def)
next
  case (Some i)
  show ?thesis
  proof (cases "truthy (rs ! i)")
    case False
    with Some step ok show ?thesis by (simp add: group_step_def)
  next
    case True
    from bound [OF Some] have i: "i < length rs" .
    from step Some True obtain setting ck where
      set: "set_item (rs ! i) ''_desired'' (snd kv) = Inr setting"
      and ck: "subscript setting ''containerKey'' = Inr ck"
      and res: "rs' = rs[i := setting]" "groups' = group_append groups ck i"
      by (simp add: group_step_def) (elim ebindE, simp split: if_splits)
    note marks = set_item_marks [OF set]
    from ok have inv: "\<And>g j. g \<in> set groups \<Longrightarrow> j \<in> set (snd g) \<Longrightarrow> j < length rs
         \<and> py_in ''_desired'' (rs ! j) = Inr True
         \<and> (\<exists>c. subscript (rs ! j) ''containerKey'' = Inr c \<and> py_eq (fst g) c)"
      and dist: "distinct (map (\<lambda>g. key_norm (fst g)) groups)"
      by (simp_all add: grouped_ok_iff)
    have at_i: "py_in ''_desired'' (rs' ! i) = Inr True"
      "subscript (rs' ! i) ''containerKey'' = subscript (rs ! i) ''containerKey''"
      using i marks by (simp_all add: res)
    have "j < length rs' \<and> py_in ''_desired'' (rs' ! j) = Inr True
         \<and> (\<exists>c. subscript (rs' ! j) ''containerKey'' = Inr c \<and> py_eq (fst g) c)"
      if g: "g \<in> set groups'" and j: "j \<in> set (snd g)" for g j
    proof -
      from group_append_member [OF g [unfolded res] j]
      consider h where "h \<in> set groups" "fst h = fst g" "j \<in> set (snd h)"
        | "j = i" "py_eq (fst g) ck" by blast
      then show ?thesis
      proof cases
        case 1
        from inv [OF 1(1) 1(3)] 1(2) have old: "j < length rs"
          "py_in ''_desired'' (rs ! j) = Inr True"
          "\<exists>c. subscript (rs ! j) ''containerKey'' = Inr c \<and> py_eq (fst g) c" by simp_all
        show ?thesis
        proof (cases "j = i")
          case True
          with old at_i show ?thesis by (simp add: res)
        next
          case False
          with old show ?thesis by (simp add: res)
        qed
      next
        case 2
        from ck marks(2) have "subscript (rs ! i) ''containerKey'' = Inr ck" by simp
        with 2 i at_i show ?thesis by (simp add: res)
      qed
    qed
    moreover have "distinct (map (\<lambda>g. key_norm (fst g)) groups')"
      unfolding res by (rule group_append_distinct [OF dist])
    ultimately show ?thesis by (simp add: grouped_ok_iff res)
  qed
qed

lemma grouping_ok:
  assumes "efold (group_step by_key) (rs, groups) items = Inr (rs', groups')"
    and "grouped_ok rs groups"
    and "\<And>k i. pydict_get by_key k = Some i \<Longrightarrow> i < length rs"
  shows "grouped_ok rs' groups' \<and> length rs' = length rs"
  using assms
proof (induction items arbitrary: rs groups)
  case Nil
  then show ?case by simp
next
  case (Cons kv items)
  from Cons.prems(1) obtain st where st: "group_step by_key (rs, groups) kv = Inr st"
    and rest: "efold (group_step by_key) st items = Inr (rs', groups')"
    by (auto simp: ebind_eq_Inr)
  obtain rs1 g1 where st_eq: "st = (rs1, g1)" by (cases st)
  from group_step_ok [OF Cons.prems(2) st [unfolded st_eq] Cons.prems(3)]
  have ok1: "grouped_ok rs1 g1" and len: "length rs1 = length rs" by simp_all
  from Cons.IH [OF rest [unfolded st_eq] ok1] Cons.prems(3) len show ?case by simp
qed

lemma pydict_set_get:
  assumes "pydict_get (pydict_set d k v) k' = Some x"
  shows "x = v \<or> pydict_get d k' = Some x"
  using assms by (induction d) (auto split: if_splits)

lemma pydict_fold_get:
  assumes "pydict_get (fold (\<lambda>kv d. pydict_set d (fst kv) (snd kv)) kvs d) k = Some x"
  shows "x \<in> snd ` set kvs \<or> pydict_get d k = Some x"
  using assms
proof (induction kvs arbitrary: d)
  case Nil
  then show ?case by simp
next
  case (Cons kv kvs)
  from Cons.prems have
    "pydict_get (fold (\<lambda>kv d. pydict_set d (fst kv) (snd kv)) kvs (pydict_set d (fst kv) (snd kv))) k = Some x"
    by simp
  from Cons.IH [OF this] pydict_set_get [of d "fst kv" "snd kv" k x] show ?case
    by auto
qed

lemma key_item_index:
  assumes "key_item p = Inr es" and "e \<in> set es"
  shows "snd e = fst p"
  using assms by (auto simp: key_item_def ebind_eq_Inr split: if_splits)

lemma settings_by_key_bound:
  assumes "settings_by_key rs = Inr by_key" and "pydict_get by_key k = Some i"
  shows "i < length rs"
proof -
  from assms(1) obtain es where es: "emap key_item (enumerate 0 rs) = Inr es"
    and by_key: "by_key = fold (\<lambda>kv d. pydict_set d (fst kv) (snd kv)) (concat es) []"
    by (auto simp: settings_by_key_def ebind_eq_Inr)
  from pydict_fold_get [OF assms(2) [unfolded by_key]]
  obtain e where e: "e \<in> set (concat es)" and i: "i = snd e" by auto
  from emap_concat_origin [OF es e] obtain p r where p: "p \<in> set (enumerate 0 rs)"
    and r: "key_item p = Inr r" "e \<in> set r" by blast
  from key_item_index [OF r] i have "i = fst p" by simp
  moreover from p have "fst p < length rs"
    by (simp add: in_set_enumerate_eq)
  ultimately show ?thesis by simp
qed

lemma grouped_ok_tail:
  assumes "grouped_ok rs (g # groups)"
  shows "grouped_ok rs groups"
  using assms by (simp add: grouped_ok_def)

lemma grouped_ok_disjoint:
  assumes ok: "grouped_ok rs (g # groups)" and h: "h \<in> set groups" and i: "i \<in> set (snd g)"
  shows "i \<notin> set (snd h)"
proof
  assume ih: "i \<in> set (snd h)"
  from ok i obtain c where c: "subscript (rs ! i) ''containerKey'' = Inr c" "py_eq (fst g) c"
    by (auto simp: grouped_ok_iff)
  from ok h ih obtain c' where c': "subscript (rs ! i) ''containerKey'' = Inr c'" "py_eq (fst h) c'"
    unfolding grouped_ok_iff by (metis list.set_intros(2))
  from c c' have "key_norm (fst g) = key_norm (fst h)" by (simp add: py_eq_def)
  moreover from ok have "key_norm (fst g) \<notin> (\<lambda>g. key_norm (fst g)) ` set groups"
    by (simp add: grouped_ok_iff)
  ultimately show False using h by (simp add: image_iff) metis
qed

lemma apply_oneE:
  assumes "apply_one B scope ck st i = Inr st'"
  obtains desired setting res where
    "pop_item (records (fst st) ! i) ''_desired'' = Inr (desired, setting)"
    and "apply_setting B (session (fst st)) scope setting desired = Inr res"
    and "records (fst st') = (records (fst st))[i := setting]"
proof -
  from assms obtain popped where pop: "pop_item (records (fst st) ! i) ''_desired'' = Inr popped"
    and rest: "ebind (apply_setting B (session (fst st)) scope (snd popped) (fst popped)) (\<lambda>res.
         ebind (get (snd popped) ''settingKey'') (\<lambda>sk.
           ebind (get (snd popped) ''type'') (\<lambda>ty.
             Inr ((fst st)\<lparr> session := snd res,
                             records := (records (fst st))[i := snd popped],
                             outcomes := outcomes (fst st) @
                               [JObj [(''settingKey'', sk), (''containerKey'', ck),
                                      (''type'', ty), (''desired'', fst popped),
                                      (''status'', JStr (if fst (fst res) then (if fst (snd (fst res)) then ''applied'' else ''skipped'') else ''failed'')),
                                      (''detail'', JStr (snd (snd (fst res))))]] \<rparr>,
                  if fst (fst res) \<and> fst (snd (fst res)) then snd st + 1 else snd st)))) = Inr st'"
    unfolding apply_one_def Let_def by (rule ebindE)
  from rest obtain res where res: "apply_setting B (session (fst st)) scope (snd popped) (fst popped) = Inr res"
    and "records (fst st') = (records (fst st))[i := snd popped]"
    by (elim ebindE) auto
  with pop res that [of "fst popped" "snd popped" res] show ?thesis by simp
qed

lemma apply_fold_records:
  assumes "efold (apply_one B scope ck) st idxs = Inr st'"
  shows "length (records (fst st')) = length (records (fst st))
       \<and> (\<forall>j. j \<notin> set idxs \<longrightarrow> records (fst st') ! j = records (fst st) ! j)
       \<and> (\<forall>i\<in>set idxs. i < length (records (fst st))
             \<longrightarrow> py_in ''_desired'' (records (fst st') ! i) = Inr False)"
  using assms
proof (induction idxs arbitrary: st)
  case Nil
  then show ?case by simp
next
  case (Cons i idxs)
  from Cons.prems obtain st1 where one: "apply_one B scope ck st i = Inr st1"
    and rest: "efold (apply_one B scope ck) st1 idxs = Inr st'"
    by (auto simp: ebind_eq_Inr)
  from one obtain desired setting where
    pop: "pop_item (records (fst st) ! i) ''_desired'' = Inr (desired, setting)"
    and rec1: "records (fst st1) = (records (fst st))[i := setting]"
    by (rule apply_oneE)
  from pop_item_removes(1) [OF pop] have gone: "py_in ''_desired'' setting = Inr False" .
  from Cons.IH [OF rest] have
    len: "length (records (fst st')) = length (records (fst st1))"
    and frame: "\<And>j. j \<notin> set idxs \<Longrightarrow> records (fst st') ! j = records (fst st1) ! j"
    and cleared: "\<And>j. j \<in> set idxs \<Longrightarrow> j < length (records (fst st1))
                 \<Longrightarrow> py_in ''_desired'' (records (fst st') ! j) = Inr False"
    by simp_all
  have "py_in ''_desired'' (records (fst st') ! j) = Inr False"
    if j: "j \<in> set (i # idxs)" and lt: "j < length (records (fst st))" for j
  proof (cases "j \<in> set idxs")
    case True
    from cleared [OF True] lt show ?thesis by (simp add: rec1)
  next
    case False
    with j have "j = i" by simp
    with frame [OF False] lt gone show ?thesis by (simp add: rec1)
  qed
  moreover have "records (fst st') ! j = records (fst st) ! j" if "j \<notin> set (i # idxs)" for j
    using that frame [of j] by (simp add: rec1)
  ultimately show ?case using len by (simp add: rec1)
qed

lemma apply_container_records:
  assumes "apply_container B containers r g = Inr r'"
  shows "length (records r') = length (records r)
       \<and> (\<forall>j. j \<notin> set (snd g) \<longrightarrow> records r' ! j = records r ! j)
       \<and> (if truthy (pydict_get_or_none containers (fst g))
          then \<forall>i\<in>set (snd g). i < length (records r)
                 \<longrightarrow> py_in ''_desired'' (records r' ! i) = Inr False
          else records r' = records r)"
proof (cases "truthy (pydict_get_or_none containers (fst g))")
  case False
  with assms obtain os where "r' = r\<lparr> outcomes := outcomes r @ os \<rparr>"
    unfolding apply_container_def Let_def by (auto simp: ebind_eq_Inr)
  with False show ?thesis by simp
next
  case True
  with assms obtain opened st saved s' where
    fold: "efold (apply_one B (fst opened) (fst g)) (r\<lparr> session := snd opened \<rparr>, 0) (snd g) = Inr st"
    and r': "r' = (fst st)\<lparr> session := s',
               saved_containers := saved_containers (fst st) @ (if fst saved then [fst g] else []) \<rparr>"
    unfolding apply_container_def Let_def by (auto simp: ebind_eq_Inr)
  from apply_fold_records [OF fold] True show ?thesis by (simp add: r')
qed

lemma apply_groups_records:
  assumes "efold (apply_container B containers) r groups = Inr r'"
    and "grouped_ok rs groups"
    and "\<forall>g\<in>set groups. \<forall>i\<in>set (snd g). records r ! i = rs ! i"
    and "length (records r) = length rs"
  shows "length (records r') = length rs
       \<and> (\<forall>j. (\<forall>g\<in>set groups. j \<notin> set (snd g)) \<longrightarrow> records r' ! j = records r ! j)
       \<and> (\<forall>g\<in>set groups. \<forall>i\<in>set (snd g).
            if truthy (pydict_get_or_none containers (fst g))
            then py_in ''_desired'' (records r' ! i) = Inr False
            else records r' ! i = rs ! i)"
  using assms
proof (induction groups arbitrary: r)
  case Nil
  then show ?case by simp
next
  case (Cons g groups)
  from Cons.prems(1) obtain r1 where one: "apply_container B containers r g = Inr r1"
    and rest: "efold (apply_container B containers) r1 groups = Inr r'"
    by (auto simp: ebind_eq_Inr)
  note ok = Cons.prems(2)
  from apply_container_records [OF one] have
    len1: "length (records r1) = length (records r)"
    and frame1: "\<And>j. j \<notin> set (snd g) \<Longrightarrow> records r1 ! j = records r ! j"
    and here: "if truthy (pydict_get_or_none containers (fst g))
          then \<forall>i\<in>set (snd g). i < length (records r)
                 \<longrightarrow> py_in ''_desired'' (records r1 ! i) = Inr False
          else records r1 = records r"
    by simp_all
  have same1: "\<forall>h\<in>set groups. \<forall>i\<in>set (snd h). records r1 ! i = rs ! i"
  proof (intro ballI)
    fix h i assume h: "h \<in> set groups" and i: "i \<in> set (snd h)"
    from grouped_ok_disjoint [OF ok h] i have "i \<notin> set (snd g)" by blast
    from frame1 [OF this] Cons.prems(3) h i show "records r1 ! i = rs ! i" by simp
  qed
  from Cons.IH [OF rest grouped_ok_tail [OF ok] same1] len1 Cons.prems(4) have
    len: "length (records r') = length rs"
    and frame: "\<And>j. (\<forall>h\<in>set groups. j \<notin> set (snd h)) \<Longrightarrow> records r' ! j = records r1 ! j"
    and later: "\<And>h i. h \<in> set groups \<Longrightarrow> i \<in> set (snd h) \<Longrightarrow>
            (if truthy (pydict_get_or_none containers (fst h))
             then py_in ''_desired'' (records r' ! i) = Inr False
             else records r' ! i = rs ! i)"
    by simp_all
  have first: "if truthy (pydict_get_or_none containers (fst g))
            then py_in ''_desired'' (records r' ! i) = Inr False
            else records r' ! i = rs ! i" if i: "i \<in> set (snd g)" for i
  proof -
    from grouped_ok_disjoint [OF ok _ i] have "\<forall>h\<in>set groups. i \<notin> set (snd h)" by blast
    from frame [OF this] have eq: "records r' ! i = records r1 ! i" .
    from ok i have lt: "i < length rs" by (simp add: grouped_ok_iff)
    from Cons.prems(3) i have old: "records r ! i = rs ! i" by simp
    show ?thesis
    proof (cases "truthy (pydict_get_or_none containers (fst g))")
      case True
      with here i lt Cons.prems(4) show ?thesis by (simp add: eq)
    next
      case False
      with here old show ?thesis by (simp add: eq)
    qed
  qed
  have "records r' ! j = records r ! j" if "\<forall>h\<in>set (g # groups). j \<notin> set (snd h)" for j
    using that frame [of j] frame1 [of j] by simp
  with len first later show ?case by simp
qed

lemma group_append_grows:
  assumes "g \<in> set G" and "j \<in> set (snd g)"
  shows "\<exists>h\<in>set (group_append G ck i). j \<in> set (snd h)"
  using assms by (induction G ck i rule: group_append.induct) auto

lemma group_append_has:
  "\<exists>h\<in>set (group_append G ck i). i \<in> set (snd h)"
  by (induction G ck i rule: group_append.induct) auto

lemma set_item_truthy:
  assumes "set_item d k v = Inr d'"
  shows "truthy d'"
proof -
  from assms obtain kvs where "d' = JObj (AList.update k v kvs)" by (rule set_item_D)
  moreover have "AList.update k v kvs \<noteq> []" by (cases kvs) simp_all
  ultimately show ?thesis by (cases "AList.update k v kvs") simp_all
qed

lemma group_step_grows:
  assumes step: "group_step by_key (rs, groups) kv = Inr (rs', groups')"
  shows "(\<forall>g\<in>set groups. \<forall>j\<in>set (snd g). \<exists>h\<in>set groups'. j \<in> set (snd h))
       \<and> (\<forall>j. truthy (rs ! j) \<longrightarrow> truthy (rs' ! j))
       \<and> (\<forall>i. pydict_get by_key (JStr (fst kv)) = Some i \<and> truthy (rs ! i)
              \<longrightarrow> (\<exists>h\<in>set groups'. i \<in> set (snd h)))"
proof (cases "pydict_get by_key (JStr (fst kv))")
  case None
  with step show ?thesis by (auto simp: group_step_def)
next
  case (Some i)
  show ?thesis
  proof (cases "truthy (rs ! i)")
    case False
    with Some step show ?thesis by (auto simp: group_step_def)
  next
    case True
    from step Some True obtain setting ck where
      set: "set_item (rs ! i) ''_desired'' (snd kv) = Inr setting"
      and res: "rs' = rs[i := setting]" "groups' = group_append groups ck i"
      by (simp add: group_step_def) (elim ebindE, auto split: if_splits)
    from set_item_truthy [OF set] have t: "truthy setting" .
    have "truthy (rs' ! j)" if "truthy (rs ! j)" for j
    proof (cases "i < length rs")
      case True
      with that t show ?thesis by (simp add: res nth_list_update)
    next
      case False
      then have "rs[i := setting] = rs" by (simp add: list_update_beyond)
      with that show ?thesis by (simp add: res)
    qed
    moreover have "\<exists>h\<in>set groups'. j \<in> set (snd h)" if "g \<in> set groups" "j \<in> set (snd g)" for g j
      unfolding res using that by (rule group_append_grows)
    moreover have "\<exists>h\<in>set groups'. i \<in> set (snd h)"
      unfolding res by (rule group_append_has)
    ultimately show ?thesis using Some by auto
  qed
qed

lemma grouping_complete:
  assumes "efold (group_step by_key) (rs, groups) items = Inr (rs', groups')"
  shows "(\<forall>g\<in>set groups. \<forall>j\<in>set (snd g). \<exists>h\<in>set groups'. j \<in> set (snd h))
       \<and> (\<forall>j. truthy (rs ! j) \<longrightarrow> truthy (rs' ! j))
       \<and> (\<forall>kv\<in>set items. \<forall>i. pydict_get by_key (JStr (fst kv)) = Some i \<and> truthy (rs ! i)
              \<longrightarrow> (\<exists>h\<in>set groups'. i \<in> set (snd h)))"
  using assms
proof (induction items arbitrary: rs groups)
  case Nil
  then show ?case by auto
next
  case (Cons kv items)
  from Cons.prems obtain st where st: "group_step by_key (rs, groups) kv = Inr st"
    and rest: "efold (group_step by_key) st items = Inr (rs', groups')"
    by (auto simp: ebind_eq_Inr)
  obtain rs1 g1 where st_eq: "st = (rs1, g1)" by (cases st)
  from group_step_grows [OF st [unfolded st_eq]] have
    a1: "\<And>g j. g \<in> set groups \<Longrightarrow> j \<in> set (snd g) \<Longrightarrow> \<exists>h\<in>set g1. j \<in> set (snd h)"
    and b1: "\<And>j. truthy (rs ! j) \<Longrightarrow> truthy (rs1 ! j)"
    and c1: "\<And>i. pydict_get by_key (JStr (fst kv)) = Some i \<Longrightarrow> truthy (rs ! i)
              \<Longrightarrow> \<exists>h\<in>set g1. i \<in> set (snd h)"
    by blast+
  from Cons.IH [OF rest [unfolded st_eq]] have
    a2: "\<And>g j. g \<in> set g1 \<Longrightarrow> j \<in> set (snd g) \<Longrightarrow> \<exists>h\<in>set groups'. j \<in> set (snd h)"
    and b2: "\<And>j. truthy (rs1 ! j) \<Longrightarrow> truthy (rs' ! j)"
    and c2: "\<And>kv i. kv \<in> set items \<Longrightarrow> pydict_get by_key (JStr (fst kv)) = Some i
              \<Longrightarrow> truthy (rs1 ! i) \<Longrightarrow> \<exists>h\<in>set groups'. i \<in> set (snd h)"
    by blast+
  have a: "\<exists>h\<in>set groups'. j \<in> set (snd h)" if "g \<in> set groups" "j \<in> set (snd g)" for g j
    using a1 [OF that] a2 by blast
  have b: "truthy (rs' ! j)" if "truthy (rs ! j)" for j
    using b1 [OF that] b2 by blast
  have c: "\<exists>h\<in>set groups'. i \<in> set (snd h)"
    if "x \<in> set (kv # items)" "pydict_get by_key (JStr (fst x)) = Some i" "truthy (rs ! i)" for x i
  proof (cases "x = kv")
    case True
    with c1 that a2 show ?thesis by blast
  next
    case False
    with that have "x \<in> set items" by simp
    from c2 [OF this that(2) b1 [OF that(3)]] show ?thesis .
  qed
  from a b c show ?case by blast
qed

lemma mainE:
  assumes "main B w schema raw_values = Inr r1"
  obtains vals rs by_key containers items rs1 groups where
    "load_values raw_values = Inr vals"
    and "main_records schema = Inr rs"
    and "settings_by_key rs = Inr by_key"
    and "containers_by_key schema = Inr containers"
    and "values_items vals = Inr items"
    and "efold (group_step by_key) (rs, []) items = Inr (rs1, groups)"
    and "efold (apply_container B containers)
           \<lparr> session = \<lparr> world = w, trace = [] \<rparr>, records = rs1,
             outcomes = [], saved_containers = [] \<rparr> groups = Inr r1"
proof -
  from assms obtain vals rs by_key containers items grouped where
    "load_values raw_values = Inr vals"
    "main_records schema = Inr rs"
    "settings_by_key rs = Inr by_key"
    "containers_by_key schema = Inr containers"
    "values_items vals = Inr items"
    "efold (group_step by_key) (rs, []) items = Inr grouped"
    "efold (apply_container B containers)
           \<lparr> session = \<lparr> world = w, trace = [] \<rparr>, records = fst grouped,
             outcomes = [], saved_containers = [] \<rparr> (snd grouped) = Inr r1"
    unfolding main_def by (elim ebindE)
  with that [of vals rs by_key containers items "fst grouped" "snd grouped"] show ?thesis
    by simp
qed

text \<open>
  C10.  The records of the schema are changed in place by a run.  Take a run of
  \<^verbatim>\<open>main\<close> that comes to its end.  Every desired value whose key finds a
  non-empty record puts that record into a group of \<^verbatim>\<open>settings_by_container\<close>,
  and every record in a group holds the key \<^verbatim>\<open>_desired\<close> when the grouping loop is
  over.  After the run, a grouped record whose container \<^verbatim>\<open>containers_by_key\<close>
  finds no longer holds \<^verbatim>\<open>_desired\<close>, and a grouped record whose container is
  missing is exactly as the grouping loop left it, so it still holds
  \<^verbatim>\<open>_desired\<close>.  Moreover each pass of the loop over the settings of an opened
  container pops \<^verbatim>\<open>_desired\<close> first: \<^verbatim>\<open>apply_setting\<close> is called on the
  record without the key, and that record is the one left in place.
\<close>

theorem desired_marker_lifecycle:
  assumes run: "main B w schema raw_values = Inr r1"
  shows "(\<exists>vals rs by_key containers items rs1 groups.
           load_values raw_values = Inr vals
         \<and> main_records schema = Inr rs
         \<and> settings_by_key rs = Inr by_key
         \<and> containers_by_key schema = Inr containers
         \<and> values_items vals = Inr items
         \<and> efold (group_step by_key) (rs, []) items = Inr (rs1, groups)
         \<and> length rs1 = length rs \<and> length (records r1) = length rs
         \<and> (\<forall>kv\<in>set items. \<forall>i. pydict_get by_key (JStr (fst kv)) = Some i \<and> truthy (rs ! i)
               \<longrightarrow> (\<exists>g\<in>set groups. i \<in> set (snd g)))
         \<and> (\<forall>g\<in>set groups. \<forall>i\<in>set (snd g).
               i < length rs
             \<and> py_in ''_desired'' (rs1 ! i) = Inr True
             \<and> (if truthy (pydict_get_or_none containers (fst g))
                then py_in ''_desired'' (records r1 ! i) = Inr False
                else records r1 ! i = rs1 ! i)))
         \<and> (\<forall>scope container_key st i st'.
               apply_one B scope container_key st i = Inr st' \<longrightarrow>
                 (\<exists>desired setting res.
                    pop_item (records (fst st) ! i) ''_desired'' = Inr (desired, setting)
                  \<and> py_in ''_desired'' setting = Inr False
                  \<and> apply_setting B (session (fst st)) scope setting desired = Inr res
                  \<and> records (fst st') = (records (fst st))[i := setting]))"
proof -
  from run obtain vals rs by_key containers items rs1 groups where
    v: "load_values raw_values = Inr vals"
    and rs: "main_records schema = Inr rs"
    and by_key: "settings_by_key rs = Inr by_key"
    and containers: "containers_by_key schema = Inr containers"
    and items: "values_items vals = Inr items"
    and grouping: "efold (group_step by_key) (rs, []) items = Inr (rs1, groups)"
    and applying: "efold (apply_container B containers)
           \<lparr> session = \<lparr> world = w, trace = [] \<rparr>, records = rs1,
             outcomes = [], saved_containers = [] \<rparr> groups = Inr r1"
    by (rule mainE)
  let ?r0 = "\<lparr> session = \<lparr> world = w, trace = [] \<rparr>, records = rs1,
             outcomes = [], saved_containers = [] \<rparr>"
  from grouping_ok [OF grouping grouped_ok_Nil settings_by_key_bound [OF by_key]]
  have ok: "grouped_ok rs1 groups" and len: "length rs1 = length rs" by simp_all
  from grouping_complete [OF grouping]
  have complete: "\<forall>kv\<in>set items. \<forall>i. pydict_get by_key (JStr (fst kv)) = Some i \<and> truthy (rs ! i)
               \<longrightarrow> (\<exists>g\<in>set groups. i \<in> set (snd g))" by blast
  have "length (records ?r0) = length rs1"
    and "\<forall>g\<in>set groups. \<forall>i\<in>set (snd g). records ?r0 ! i = rs1 ! i" by simp_all
  from apply_groups_records [OF applying ok this(2) this(1)]
  have len1: "length (records r1) = length rs1"
    and after: "\<forall>g\<in>set groups. \<forall>i\<in>set (snd g).
            if truthy (pydict_get_or_none containers (fst g))
            then py_in ''_desired'' (records r1 ! i) = Inr False
            else records r1 ! i = rs1 ! i" by simp_all
  from ok have marked: "\<forall>g\<in>set groups. \<forall>i\<in>set (snd g).
      i < length rs1 \<and> py_in ''_desired'' (rs1 ! i) = Inr True"
    by (simp add: grouped_ok_iff)
  have final: "\<forall>g\<in>set groups. \<forall>i\<in>set (snd g).
               i < length rs
             \<and> py_in ''_desired'' (rs1 ! i) = Inr True
             \<and> (if truthy (pydict_get_or_none containers (fst g))
                then py_in ''_desired'' (records r1 ! i) = Inr False
                else records r1 ! i = rs1 ! i)"
  proof (intro ballI)
    fix g i
    assume g: "g \<in> set groups" and i: "i \<in> set (snd g)"
    from marked g i have "i < length rs1 \<and> py_in ''_desired'' (rs1 ! i) = Inr True"
      by blast
    moreover from after g i have "if truthy (pydict_get_or_none containers (fst g))
                then py_in ''_desired'' (records r1 ! i) = Inr False
                else records r1 ! i = rs1 ! i"
      by blast
    ultimately show "i < length rs
             \<and> py_in ''_desired'' (rs1 ! i) = Inr True
             \<and> (if truthy (pydict_get_or_none containers (fst g))
                then py_in ''_desired'' (records r1 ! i) = Inr False
                else records r1 ! i = rs1 ! i)"
      using len by simp
  qed
  have body: "\<exists>desired setting res.
                    pop_item (records (fst st) ! i) ''_desired'' = Inr (desired, setting)
                  \<and> py_in ''_desired'' setting = Inr False
                  \<and> apply_setting B (session (fst st)) scope setting desired = Inr res
                  \<and> records (fst st') = (records (fst st))[i := setting]"
    if one: "apply_one B scope container_key st i = Inr st'" for scope container_key st i st'
  proof -
    from one obtain desired setting res where
      pop: "pop_item (records (fst st) ! i) ''_desired'' = Inr (desired, setting)"
      and res: "apply_setting B (session (fst st)) scope setting desired = Inr res"
      and rec: "records (fst st') = (records (fst st))[i := setting]"
      by (rule apply_oneE)
    from pop_item_removes(1) [OF pop] pop res rec show ?thesis by blast
  qed
  from v rs by_key containers items grouping len len1 complete final
  have "\<exists>vals rs by_key containers items rs1 groups.
           load_values raw_values = Inr vals
         \<and> main_records schema = Inr rs
         \<and> settings_by_key rs = Inr by_key
         \<and> containers_by_key schema = Inr containers
         \<and> values_items vals = Inr items
         \<and> efold (group_step by_key) (rs, []) items = Inr (rs1, groups)
         \<and> length rs1 = length rs \<and> length (records r1) = length rs
         \<and> (\<forall>kv\<in>set items. \<forall>i. pydict_get by_key (JStr (fst kv)) = Some i \<and> truthy (rs ! i)
               \<longrightarrow> (\<exists>g\<in>set groups. i \<in> set (snd g)))
         \<and> (\<forall>g\<in>set groups. \<forall>i\<in>set (snd g).
               i < length rs
             \<and> py_in ''_desired'' (rs1 ! i) = Inr True
             \<and> (if truthy (pydict_get_or_none containers (fst g))
                then py_in ''_desired'' (records r1 ! i) = Inr False
                else records r1 ! i = rs1 ! i))"
    by (intro exI conjI) simp_all
  with body show ?thesis by blast
qed

theorem desired_marker_lifecycle_witness:
  "main (text_page form_counts) ''old'' form_schema form_values = Inr form_run_end
   \<and> map (py_in ''_desired'') (records form_run_end) = [Inr False, Inr False, Inr False, Inr True]
   \<and> apply_one (text_page form_counts) Page (JStr ''c1'')
        (one_record_run ''old'' (with_desired name_field (JStr ''new'')), 0) 0
       = Inr (\<lparr> session = \<lparr> world = ''new'',
                                trace = [Fill (First (Css Page (JStr ''#name''))) ''new''] \<rparr>,
                   records = [name_field],
                   outcomes = [JObj [(''settingKey'', JStr ''name''), (''containerKey'', JStr ''c1''),
                                     (''type'', JStr ''textbox''), (''desired'', JStr ''new''),
                                     (''status'', JStr ''applied''), (''detail'', JStr ''primary'')]],
                   saved_containers = [] \<rparr>, 1)
   \<and> (\<exists>desired setting res.
          pop_item (records (one_record_run ''old'' (with_desired name_field (JStr ''new''))) ! 0)
            ''_desired'' = Inr (desired, setting)
        \<and> py_in ''_desired'' setting = Inr False
        \<and> apply_setting (text_page form_counts)
            (session (one_record_run ''old'' (with_desired name_field (JStr ''new''))))
            Page setting desired = Inr res)"
proof -
  have run: "main (text_page form_counts) ''old'' form_schema form_values = Inr form_run_end"
    by code_simp
  have marks: "map (py_in ''_desired'') (records form_run_end)
                 = [Inr False, Inr False, Inr False, Inr True]"
    by code_simp
  have one: "apply_one (text_page form_counts) Page (JStr ''c1'')
        (one_record_run ''old'' (with_desired name_field (JStr ''new'')), 0) 0
       = Inr (\<lparr> session = \<lparr> world = ''new'',
                                trace = [Fill (First (Css Page (JStr ''#name''))) ''new''] \<rparr>,
                   records = [name_field],
                   outcomes = [JObj [(''settingKey'', JStr ''name''), (''containerKey'', JStr ''c1''),
                                     (''type'', JStr ''textbox''), (''desired'', JStr ''new''),
                                     (''status'', JStr ''applied''), (''detail'', JStr ''primary'')]],
                   saved_containers = [] \<rparr>, 1)"
    by code_simp
  from desired_marker_lifecycle [OF run] one
  have "\<exists>desired setting res.
          pop_item (records (fst (one_record_run ''old'' (with_desired name_field (JStr ''new'')), 0 :: nat)) ! 0)
            ''_desired'' = Inr (desired, setting)
        \<and> py_in ''_desired'' setting = Inr False
        \<and> apply_setting (text_page form_counts)
            (session (fst (one_record_run ''old'' (with_desired name_field (JStr ''new'')), 0 :: nat)))
            Page setting desired = Inr res"
    by blast
  then have "\<exists>desired setting res.
          pop_item (records (one_record_run ''old'' (with_desired name_field (JStr ''new''))) ! 0)
            ''_desired'' = Inr (desired, setting)
        \<and> py_in ''_desired'' setting = Inr False
        \<and> apply_setting (text_page form_counts)
            (session (one_record_run ''old'' (with_desired name_field (JStr ''new''))))
            Page setting desired = Inr res"
    by (simp only: fst_conv)
  with run marks one show ?thesis by (intro conjI)
qed

end
